theory Spec2Isabelle
  imports Complex_Main "HOL-Library.Word"
begin

unbundle bit_operations_syntax

section \<open>Etatherm over Modbus: data model\<close>

text \<open>
  The embedding follows \<^verbatim>\<open>etathermmodbus.py\<close> (class \<^verbatim>\<open>EtathermModbus\<close>) and
  \<^verbatim>\<open>const.py\<close>. Python integers are \<^typ>\<open>int\<close>; the elements of a \<^verbatim>\<open>bytes\<close> object
  are 8-bit words, read back as integers with \<^term>\<open>uint\<close> wherever the source indexes
  a \<^verbatim>\<open>bytes\<close> value. Every exception the source can raise is a value of
  \<open>py_error\<close>, and a method that can raise returns \<open>py_error + 'a\<close>.
\<close>

type_synonym byte = "8 word"

datatype py_error =
    AttributeError
  | ValueError
  | IndexError
  | KeyError
  | ZeroDivisionError
  | OverflowError
  | UnicodeDecodeError
  | UnboundLocalError
  | TypeError

text \<open>\<^verbatim>\<open>const.py\<close>\<close>

definition CONF_MODBUS_RETR :: nat where
  "CONF_MODBUS_RETR = 10"

definition CONF_MODBUS_RETR_WAIT :: int where
  "CONF_MODBUS_RETR_WAIT = 1"

text \<open>
  What the transport hands back (a pymodbus response object): the source only ever calls
  \<^verbatim>\<open>isError()\<close> on it and reads its attribute \<^verbatim>\<open>registers\<close>. An object without that
  attribute (\<open>None\<close> here) makes the attribute access raise.
\<close>

record response =
  isError :: bool
  registers :: "int list option"

text \<open>One entry of \<^verbatim>\<open>self._params\<close>: the dict with keys used, name, shift, step.\<close>

record position =
  used :: bool
  name :: string
  shift :: int
  step :: int

text \<open>One entry of the dict returned by \<^verbatim>\<open>get_parameters\<close>: keys name, min, max.\<close>

record zone_info =
  info_name :: string
  info_min :: int
  info_max :: int

text \<open>One entry of the dict returned by \<^verbatim>\<open>get_required_temperatures\<close>: keys temp, flag.\<close>

record requirement =
  temp :: int
  flag :: int

text \<open>The fields of a \<^verbatim>\<open>datetime\<close> that \<^verbatim>\<open>__get_toy\<close> reads.\<close>

record datetime =
  month :: int
  day :: int
  hour :: int
  minute :: int

text \<open>
  The calls the client issues on \<^verbatim>\<open>self._client\<close>, in the order issued. The log and the
  seconds spent in \<^verbatim>\<open>asyncio.sleep\<close> are kept in the state so that theorems can speak
  about what was sent and how long the client waited.
\<close>

datatype request =
    Connect
  | ReadHolding int int "int option"
  | WriteRegisters int "int list" "int option"

text \<open>
  The transport (\<^verbatim>\<open>AsyncModbusTcpClient\<close>) is not part of the repository: it is a
  parameter, a deterministic machine over a state \<open>'d\<close> of its own.
\<close>

record 'd modbus =
  client_connected :: "'d \<Rightarrow> bool"
  client_connect :: "'d \<Rightarrow> bool \<times> 'd"
  client_read_holding_registers :: "'d \<Rightarrow> int \<Rightarrow> int \<Rightarrow> int option \<Rightarrow> response \<times> 'd"
  client_write_registers :: "'d \<Rightarrow> int \<Rightarrow> int list \<Rightarrow> int option \<Rightarrow> response \<times> 'd"

text \<open>The object state of \<^verbatim>\<open>EtathermModbus\<close>.\<close>

record 'd etatherm =
  client :: 'd
  address :: int
  params :: "(int \<rightharpoonup> position) option"
  slept :: int
  trace :: "request list"

definition init :: "'d \<Rightarrow> int \<Rightarrow> 'd etatherm" where
  "init c a = \<lparr>client = c, address = a, params = None, slept = 0, trace = []\<rparr>"

text \<open>
  A method either raises (\<open>Inl\<close>: the exception and the object state at that moment)
  or returns (\<open>Inr\<close>: the value and the object state).
\<close>

type_synonym ('a, 'd) result = "(py_error \<times> 'd etatherm) + ('a \<times> 'd etatherm)"

section \<open>Python primitives used by the source\<close>

text \<open>\<^verbatim>\<open>bytes(xs)\<close> for a list of integers: every element must be in \<open>range(256)\<close>.\<close>

definition py_bytes :: "int list \<Rightarrow> py_error + byte list" where
  "py_bytes xs =
     (if list_all (\<lambda>x. 0 \<le> x \<and> x < 256) xs then Inr (map word_of_int xs)
      else Inl ValueError)"

text \<open>\<^verbatim>\<open>bytes(response.registers)\<close>\<close>

definition registers_bytes :: "response \<Rightarrow> py_error + byte list" where
  "registers_bytes r =
     (case registers r of None \<Rightarrow> Inl AttributeError | Some xs \<Rightarrow> py_bytes xs)"

text \<open>\<^verbatim>\<open>data[i]\<close> on a \<^verbatim>\<open>bytes\<close> value, for a constant index \<open>i \<ge> 0\<close>.\<close>

definition py_index :: "byte list \<Rightarrow> nat \<Rightarrow> py_error + int" where
  "py_index data i = (if i < length data then Inr (uint (data ! i)) else Inl IndexError)"

text \<open>\<^verbatim>\<open>v.to_bytes(2, "big")\<close>\<close>

definition to_bytes_2_big :: "int \<Rightarrow> py_error + byte list" where
  "to_bytes_2_big v =
     (if 0 \<le> v \<and> v < 65536 then Inr [word_of_int (v div 256), word_of_int (v mod 256)]
      else Inl OverflowError)"

text \<open>
  \<^verbatim>\<open>name.decode("1250")\<close>: the code page is a table of the Python library, taken as a
  parameter that maps a byte to its character, or to nothing where the code page leaves
  the byte undefined.
\<close>

definition decode_1250 :: "(byte \<Rightarrow> char option) \<Rightarrow> byte list \<Rightarrow> py_error + string" where
  "decode_1250 cp bs =
     (if list_all (\<lambda>b. cp b \<noteq> None) bs then Inr (map (\<lambda>b. the (cp b)) bs)
      else Inl UnicodeDecodeError)"

section \<open>The register codec, as written inline in the methods\<close>

text \<open>
  \<^verbatim>\<open>__read_params\<close>, lines 146-152: the decoding of the 4-byte configuration block into
  \<open>(used, shift, step)\<close>.
\<close>

definition read_params_decode :: "byte list \<Rightarrow> py_error + (bool \<times> int \<times> int)" where
  "read_params_decode ps =
     (case py_index ps 0 of Inl e \<Rightarrow> Inl e | Inr p0 \<Rightarrow>
        let used0 = p0 AND 0x07;
            used1 = (used0 \<noteq> 0)
        in (case py_index ps 2 of Inl e \<Rightarrow> Inl e | Inr p2 \<Rightarrow>
              let shift0 = p2 AND 0x3F;
                  shift1 = shift0 - (64 * (shift0 div 32));
                  step0 = drop_bit 6 (p2 AND 0xC0);
                  step1 = step0 + 1
              in Inr (used1, shift1, step1)))"

text \<open>\<^verbatim>\<open>__get_toy\<close>\<close>

definition get_toy :: "datetime \<Rightarrow> int" where
  "get_toy time_in =
     (minute time_in div 15) + (hour time_in * 4) + (day time_in * 32 * 4)
       + (month time_in * 32 * 32 * 4)"

text \<open>
  \<^verbatim>\<open>name.find(b"\x00")\<close>: the index of the first occurrence of a byte, or \<open>-1\<close>.
\<close>

fun bytes_find :: "byte list \<Rightarrow> byte \<Rightarrow> int" where
  "bytes_find [] x = - 1"
| "bytes_find (b # bs) x =
     (if b = x then 0 else (let r = bytes_find bs x in if r = - 1 then - 1 else r + 1))"

text \<open>
  \<^verbatim>\<open>set_mode\<close>, lines 52-55: the 5 bytes written back, from the bytes read and the
  requested mode. \<^verbatim>\<open>data[1:5]\<close> is a slice and never raises.
\<close>

definition set_mode_data :: "bool \<Rightarrow> byte list \<Rightarrow> py_error + byte list" where
  "set_mode_data auto data =
     (case py_index data 0 of Inl e \<Rightarrow> Inl e | Inr d0 \<Rightarrow>
        if auto then
          (case py_bytes [d0 AND 0xDF] of Inl e \<Rightarrow> Inl e
           | Inr b \<Rightarrow> Inr (b @ [0x10, 0x80, 0x10, 0x80]))
        else
          (case py_bytes [d0 OR 0x20] of Inl e \<Rightarrow> Inl e
           | Inr b \<Rightarrow> Inr (b @ take 4 (drop 1 data))))"

text \<open>
  \<^verbatim>\<open>set_temporary_temperature\<close>, line 71: the raw level written for a temperature.
  The caller guarantees \<open>step \<noteq> 0\<close> (Python's \<open>//\<close> raises on zero, see
  \<open>set_temporary_temperature\<close> below).
\<close>

definition set_temporary_temperature_temp :: "real \<Rightarrow> position \<Rightarrow> int" where
  "set_temporary_temperature_temp temperature p =
     (\<lfloor>temperature\<rfloor> div step p - shift p) AND 0x1F"

text \<open>\<^verbatim>\<open>set_temporary_temperature\<close>, lines 80-84: the 5 bytes written.\<close>

definition set_temporary_temperature_data ::
  "byte list \<Rightarrow> int \<Rightarrow> int \<Rightarrow> int \<Rightarrow> py_error + byte list" where
  "set_temporary_temperature_data data tmp start end =
     (case py_index data 0 of Inl e \<Rightarrow> Inl e | Inr d0 \<Rightarrow>
      case py_bytes [(d0 AND 0xC0) + tmp] of Inl e \<Rightarrow> Inl e | Inr b \<Rightarrow>
      case to_bytes_2_big start of Inl e \<Rightarrow> Inl e | Inr sb \<Rightarrow>
      case to_bytes_2_big end of Inl e \<Rightarrow> Inl e | Inr eb \<Rightarrow>
        Inr (b @ sb @ eb))"

text \<open>
  \<^verbatim>\<open>get_current_temperatures\<close>, line 103, and \<^verbatim>\<open>get_required_temperatures\<close>,
  lines 116-123: what is stored for a used position, from the byte at that position.
\<close>

definition current_temp :: "int \<Rightarrow> position \<Rightarrow> int" where
  "current_temp b p = (b + shift p) * step p"

definition required_entry :: "int \<Rightarrow> position \<Rightarrow> requirement" where
  "required_entry d p =
     (let b = d AND 0x1F;
          flag0 = drop_bit 5 d
      in \<lparr>temp = (b + shift p) * step p, flag = flag0\<rparr>)"

section \<open>The transaction executor\<close>

text \<open>\<^verbatim>\<open>__async_connect\<close> (logging left out) and \<^verbatim>\<open>__check_connection\<close>\<close>

definition async_connect :: "'d modbus \<Rightarrow> 'd etatherm \<Rightarrow> bool \<times> 'd etatherm" where
  "async_connect M s =
     (let (result, c) = client_connect M (client s)
      in (result, s\<lparr>client := c, trace := trace s @ [Connect]\<rparr>))"

definition check_connection :: "'d modbus \<Rightarrow> 'd etatherm \<Rightarrow> bool \<times> 'd etatherm" where
  "check_connection M s =
     (if \<not> client_connected M (client s) then async_connect M s
      else (client_connected M (client s), s))"

text \<open>
  The loop \<^verbatim>\<open>for i in range(0, CONF_MODBUS_RETR)\<close> of both \<^verbatim>\<open>async_read_holding_registers\<close>
  and \<^verbatim>\<open>async_write_register\<close>: the two methods hold the same loop around a different
  transport call, which is the argument \<open>call\<close> here (\<open>rq\<close> is what the log records for
  it). The third argument counts the iterations left, the fourth is the variable
  \<^verbatim>\<open>regs_l\<close>, unbound before the first iteration.
\<close>

fun retry_loop ::
  "('d \<Rightarrow> response \<times> 'd) \<Rightarrow> request \<Rightarrow> nat \<Rightarrow> response option \<Rightarrow> 'd etatherm
     \<Rightarrow> response option \<times> 'd etatherm" where
  "retry_loop call rq 0 regs_l s = (regs_l, s)"
| "retry_loop call rq (Suc n) regs_l s =
     (let (r, c) = call (client s);
          s1 = s\<lparr>client := c, trace := trace s @ [rq]\<rparr>
      in if isError r
         then retry_loop call rq n (Some r) (s1\<lparr>slept := slept s1 + CONF_MODBUS_RETR_WAIT\<rparr>)
         else (Some r, s1))"

text \<open>
  The lock \<^verbatim>\<open>self._lock\<close> is free whenever a method of this sequential model starts
  and is released when it ends, so it does not appear in the state.
\<close>

definition async_read_holding_registers ::
  "'d modbus \<Rightarrow> int \<Rightarrow> int \<Rightarrow> int \<Rightarrow> 'd etatherm \<Rightarrow> (response, 'd) result" where
  "async_read_holding_registers M unit addr count s =
     (let kwargs = (if unit \<noteq> 0 then Some unit else None);
          s1 = snd (check_connection M s)
      in case retry_loop (\<lambda>c. client_read_holding_registers M c addr count kwargs)
                (ReadHolding addr count kwargs) CONF_MODBUS_RETR None s1 of
           (None, s2) \<Rightarrow> Inl (UnboundLocalError, s2)
         | (Some regs_l, s2) \<Rightarrow> Inr (regs_l, s2))"

definition async_write_register ::
  "'d modbus \<Rightarrow> int \<Rightarrow> int \<Rightarrow> byte list \<Rightarrow> 'd etatherm \<Rightarrow> (response, 'd) result" where
  "async_write_register M unit addr payload s =
     (let kwargs = (if unit \<noteq> 0 then Some unit else None);
          s1 = snd (check_connection M s)
      in case retry_loop (\<lambda>c. client_write_registers M c addr (map uint payload) kwargs)
                (WriteRegisters addr (map uint payload) kwargs) CONF_MODBUS_RETR None s1 of
           (None, s2) \<Rightarrow> Inl (UnboundLocalError, s2)
         | (Some regs_l, s2) \<Rightarrow> Inr (regs_l, s2))"

section \<open>The facade\<close>

text \<open>
  One iteration of the loop of \<^verbatim>\<open>__read_params\<close>, for position \<open>pos\<close>; \<open>res\<close> is the
  dict being filled. The test before the name is decoded is on \<^verbatim>\<open>param_response\<close>, as in
  the source (line 158).
\<close>

definition read_params_pos ::
  "'d modbus \<Rightarrow> (byte \<Rightarrow> char option) \<Rightarrow> int \<Rightarrow> (int \<rightharpoonup> position) \<Rightarrow> 'd etatherm
     \<Rightarrow> (int \<rightharpoonup> position, 'd) result" where
  "read_params_pos M cp pos res s =
     (let start = 0x1100;
          name_start = 0x1030;
          addr = start + (pos - 1) * 0x10
      in case async_read_holding_registers M (address s) addr 4 s of
           Inl x \<Rightarrow> Inl x
         | Inr (param_response, s1) \<Rightarrow>
             if isError param_response then
               Inr (res(pos \<mapsto> \<lparr>used = False, name = ''<timeout>'', shift = 5, step = 1\<rparr>), s1)
             else
               (case registers_bytes param_response of
                  Inl e \<Rightarrow> Inl (e, s1)
                | Inr ps \<Rightarrow>
                   (case read_params_decode ps of
                      Inl e \<Rightarrow> Inl (e, s1)
                    | Inr (used1, shift1, step1) \<Rightarrow>
                        if used1 then
                          (let addr = name_start + (pos - 1) * 8
                           in case async_read_holding_registers M (address s1) addr 8 s1 of
                                Inl x \<Rightarrow> Inl x
                              | Inr (name_response, s2) \<Rightarrow>
                                 (case (if isError param_response then Inr []
                                        else registers_bytes name_response) of
                                    Inl e \<Rightarrow> Inl (e, s2)
                                  | Inr name0 \<Rightarrow>
                                     (let end = bytes_find name0 0;
                                          name1 = (if end \<noteq> - 1 then take (nat end) name0
                                                   else name0)
                                      in case decode_1250 cp name1 of
                                           Inl e \<Rightarrow> Inl (e, s2)
                                         | Inr name2 \<Rightarrow>
                                             Inr (res(pos \<mapsto> \<lparr>used = used1, name = name2,
                                                    shift = shift1, step = step1\<rparr>), s2))))
                        else
                          Inr (res(pos \<mapsto> \<lparr>used = used1, name = [],
                                 shift = shift1, step = step1\<rparr>), s1))))"

text \<open>The loop \<^verbatim>\<open>for pos in range(1, 17)\<close> of \<^verbatim>\<open>__read_params\<close>, over the positions left.\<close>

fun read_params_loop ::
  "'d modbus \<Rightarrow> (byte \<Rightarrow> char option) \<Rightarrow> int list \<Rightarrow> (int \<rightharpoonup> position) \<Rightarrow> 'd etatherm
     \<Rightarrow> (int \<rightharpoonup> position, 'd) result" where
  "read_params_loop M cp [] res s = Inr (res, s)"
| "read_params_loop M cp (pos # rest) res s =
     (case read_params_pos M cp pos res s of
        Inl x \<Rightarrow> Inl x
      | Inr (res1, s1) \<Rightarrow> read_params_loop M cp rest res1 s1)"

definition read_params ::
  "'d modbus \<Rightarrow> (byte \<Rightarrow> char option) \<Rightarrow> 'd etatherm \<Rightarrow> (unit, 'd) result" where
  "read_params M cp s =
     (case read_params_loop M cp [1..16] Map.empty s of
        Inl x \<Rightarrow> Inl x
      | Inr (res, s1) \<Rightarrow> Inr ((), s1\<lparr>params := Some res\<rparr>))"

text \<open>\<^verbatim>\<open>if self._params is None: await self.__read_params()\<close>, as four methods start.\<close>

definition ensure_params ::
  "'d modbus \<Rightarrow> (byte \<Rightarrow> char option) \<Rightarrow> 'd etatherm \<Rightarrow> (unit, 'd) result" where
  "ensure_params M cp s = (if params s = None then read_params M cp s else Inr ((), s))"

definition get_parameters ::
  "'d modbus \<Rightarrow> (byte \<Rightarrow> char option) \<Rightarrow> 'd etatherm
     \<Rightarrow> ((int \<rightharpoonup> zone_info) option, 'd) result" where
  "get_parameters M cp s =
     (case ensure_params M cp s of
        Inl x \<Rightarrow> Inl x
      | Inr (u, s1) \<Rightarrow>
         (case params s1 of
            None \<Rightarrow> Inr (None, s1)
          | Some ps \<Rightarrow>
              Inr (Some (\<lambda>pos. case ps pos of
                                 None \<Rightarrow> None
                               | Some p \<Rightarrow>
                                   if used p then
                                     Some \<lparr>info_name = name p,
                                           info_min = (1 + shift p) * step p,
                                           info_max = (30 + shift p) * step p\<rparr>
                                   else None), s1)))"

definition set_mode :: "'d modbus \<Rightarrow> int \<Rightarrow> bool \<Rightarrow> 'd etatherm \<Rightarrow> (bool, 'd) result" where
  "set_mode M pos auto s =
     (let start = 0x1100;
          addr = start + (pos - 1) * 0x10 + 0x03
      in case async_read_holding_registers M (address s) addr 6 s of
           Inl x \<Rightarrow> Inl x
         | Inr (response, s1) \<Rightarrow>
             if isError response then Inr (False, s1)
             else
               (case registers_bytes response of
                  Inl e \<Rightarrow> Inl (e, s1)
                | Inr data \<Rightarrow>
                   (case set_mode_data auto data of
                      Inl e \<Rightarrow> Inl (e, s1)
                    | Inr data1 \<Rightarrow>
                       (case async_write_register M (address s1) addr data1 s1 of
                          Inl x \<Rightarrow> Inl x
                        | Inr (response1, s2) \<Rightarrow>
                            if isError response1 then Inr (False, s2) else Inr (True, s2)))))"

text \<open>
  \<^verbatim>\<open>set_temporary_temperature\<close>. The clock is outside the program: \<open>now\<close> is what
  \<^verbatim>\<open>datetime.now()\<close> returns in this call and \<open>add_minutes t m\<close> is \<^verbatim>\<open>t + timedelta(minutes=m)\<close>
  of the Python library (\<^verbatim>\<open>now - timedelta(minutes=0)\<close> is \<open>add_minutes now (- 0)\<close>).
\<close>

definition set_temporary_temperature ::
  "'d modbus \<Rightarrow> (byte \<Rightarrow> char option) \<Rightarrow> (datetime \<Rightarrow> int \<Rightarrow> datetime) \<Rightarrow> datetime
     \<Rightarrow> int \<Rightarrow> real \<Rightarrow> int \<Rightarrow> 'd etatherm \<Rightarrow> (bool, 'd) result" where
  "set_temporary_temperature M cp add_minutes now pos temperature duration s =
     (let start = 0x1100;
          addr = start + (pos - 1) * 0x10 + 0x03
      in case ensure_params M cp s of
           Inl x \<Rightarrow> Inl x
         | Inr (u, s1) \<Rightarrow>
            (case params s1 of
               None \<Rightarrow> Inl (TypeError, s1)
             | Some ps \<Rightarrow>
                (case ps pos of
                   None \<Rightarrow> Inl (KeyError, s1)
                 | Some p \<Rightarrow>
                     if step p = 0 then Inl (ZeroDivisionError, s1)
                     else
                       (let tmp = set_temporary_temperature_temp temperature p
                        in case async_read_holding_registers M (address s1) addr 1 s1 of
                             Inl x \<Rightarrow> Inl x
                           | Inr (response, s2) \<Rightarrow>
                               if isError response then Inr (False, s2)
                               else
                                 (case registers_bytes response of
                                    Inl e \<Rightarrow> Inl (e, s2)
                                  | Inr data \<Rightarrow>
                                     (let start = get_toy (add_minutes now (- 0));
                                          end = get_toy (add_minutes now (duration + 1))
                                      in case set_temporary_temperature_data data tmp start end of
                                           Inl e \<Rightarrow> Inl (e, s2)
                                         | Inr data1 \<Rightarrow>
                                            (case async_write_register M (address s2) addr data1 s2 of
                                               Inl x \<Rightarrow> Inl x
                                             | Inr (response1, s3) \<Rightarrow>
                                                 if isError response1 then Inr (False, s3)
                                                 else Inr (True, s3))))))))"

text \<open>
  The loops \<^verbatim>\<open>for pos in range(1, 17)\<close> of \<^verbatim>\<open>get_current_temperatures\<close> and
  \<^verbatim>\<open>get_required_temperatures\<close>, over the positions left.
\<close>

fun current_loop ::
  "byte list \<Rightarrow> (int \<rightharpoonup> position) \<Rightarrow> int list \<Rightarrow> (int \<rightharpoonup> int) \<Rightarrow> py_error + (int \<rightharpoonup> int)" where
  "current_loop data ps [] res = Inr res"
| "current_loop data ps (pos # rest) res =
     (case py_index data (nat (pos - 1)) of
        Inl e \<Rightarrow> Inl e
      | Inr b \<Rightarrow>
         (case ps pos of
            None \<Rightarrow> Inl KeyError
          | Some p \<Rightarrow>
              current_loop data ps rest (if used p then res(pos \<mapsto> current_temp b p) else res)))"

fun required_loop ::
  "byte list \<Rightarrow> (int \<rightharpoonup> position) \<Rightarrow> int list \<Rightarrow> (int \<rightharpoonup> requirement)
     \<Rightarrow> py_error + (int \<rightharpoonup> requirement)" where
  "required_loop data ps [] res = Inr res"
| "required_loop data ps (pos # rest) res =
     (case py_index data (nat (pos - 1)) of
        Inl e \<Rightarrow> Inl e
      | Inr d \<Rightarrow>
         (case ps pos of
            None \<Rightarrow> Inl KeyError
          | Some p \<Rightarrow>
              required_loop data ps rest (if used p then res(pos \<mapsto> required_entry d p) else res)))"

definition get_current_temperatures ::
  "'d modbus \<Rightarrow> (byte \<Rightarrow> char option) \<Rightarrow> 'd etatherm \<Rightarrow> ((int \<rightharpoonup> int) option, 'd) result" where
  "get_current_temperatures M cp s =
     (case async_read_holding_registers M (address s) 0x60 16 s of
        Inl x \<Rightarrow> Inl x
      | Inr (response, s1) \<Rightarrow>
         (case registers_bytes response of
            Inl e \<Rightarrow> Inl (e, s1)
          | Inr data \<Rightarrow>
             (case ensure_params M cp s1 of
                Inl x \<Rightarrow> Inl x
              | Inr (u, s2) \<Rightarrow>
                 (case params s2 of
                    None \<Rightarrow> Inr (None, s2)
                  | Some ps \<Rightarrow>
                      if length data \<noteq> 16 then Inr (None, s2)
                      else
                        (case current_loop data ps [1..16] Map.empty of
                           Inl e \<Rightarrow> Inl (e, s2)
                         | Inr res \<Rightarrow> Inr (Some res, s2))))))"

definition get_required_temperatures ::
  "'d modbus \<Rightarrow> (byte \<Rightarrow> char option) \<Rightarrow> 'd etatherm
     \<Rightarrow> ((int \<rightharpoonup> requirement) option, 'd) result" where
  "get_required_temperatures M cp s =
     (case async_read_holding_registers M (address s) 0x70 16 s of
        Inl x \<Rightarrow> Inl x
      | Inr (response, s1) \<Rightarrow>
         (case registers_bytes response of
            Inl e \<Rightarrow> Inl (e, s1)
          | Inr data \<Rightarrow>
             (case ensure_params M cp s1 of
                Inl x \<Rightarrow> Inl x
              | Inr (u, s2) \<Rightarrow>
                 (case params s2 of
                    None \<Rightarrow> Inr (None, s2)
                  | Some ps \<Rightarrow>
                      if length data \<noteq> 16 then Inr (None, s2)
                      else
                        (case required_loop data ps [1..16] Map.empty of
                           Inl e \<Rightarrow> Inl (e, s2)
                         | Inr res \<Rightarrow> Inr (Some res, s2))))))"

section \<open>A scripted transport, for evaluating the model on concrete runs\<close>

text \<open>
  A transport that is always connected and answers the \<open>n\<close>-th call (read or write
  alike) with the \<open>n\<close>-th response of a script; once the script is used up every call
  fails. The code page table covers the ASCII range only.
\<close>

definition error_response :: response where
  "error_response = \<lparr>isError = True, registers = None\<rparr>"

definition ok_response :: "int list \<Rightarrow> response" where
  "ok_response xs = \<lparr>isError = False, registers = Some xs\<rparr>"

definition script_next :: "response list \<Rightarrow> response \<times> response list" where
  "script_next d = (case d of [] \<Rightarrow> (error_response, []) | r # rs \<Rightarrow> (r, rs))"

definition script_modbus :: "response list modbus" where
  "script_modbus =
     \<lparr>client_connected = (\<lambda>d. True),
      client_connect = (\<lambda>d. (True, d)),
      client_read_holding_registers = (\<lambda>d addr count kwargs. script_next d),
      client_write_registers = (\<lambda>d addr vals kwargs. script_next d)\<rparr>"

definition ascii_table :: "byte \<Rightarrow> char option" where
  "ascii_table b = (if b < 128 then Some (char_of (uint b)) else None)"

text \<open>
  A script for one pass of \<^verbatim>\<open>__read_params\<close>: position 1 answers with an unused block,
  position 2 fails on all ten attempts, position 3 answers with the configuration block
  \<open>[0x01, 0x00, 0x41, 0x00]\<close> and the name block \<open>Hall\<close> padded with zero bytes, and
  positions 4 to 16 answer with unused blocks.
\<close>

definition demo_script :: "response list" where
  "demo_script =
     [ok_response [0x00, 0x00, 0x05, 0x00],
      error_response, error_response, error_response, error_response, error_response,
      error_response, error_response, error_response, error_response, error_response,
      ok_response [0x01, 0x00, 0x41, 0x00], ok_response [72, 97, 108, 108, 0, 0, 0, 0],
      ok_response [0, 0, 0, 0], ok_response [0, 0, 0, 0], ok_response [0, 0, 0, 0],
      ok_response [0, 0, 0, 0], ok_response [0, 0, 0, 0], ok_response [0, 0, 0, 0],
      ok_response [0, 0, 0, 0], ok_response [0, 0, 0, 0], ok_response [0, 0, 0, 0],
      ok_response [0, 0, 0, 0], ok_response [0, 0, 0, 0], ok_response [0, 0, 0, 0],
      ok_response [0, 0, 0, 0]]"

text \<open>
  The fields of a \<^verbatim>\<open>datetime\<close> are within the ranges of the calendar and the clock.
\<close>

definition valid_datetime :: "datetime \<Rightarrow> bool" where
  "valid_datetime t \<longleftrightarrow>
     1 \<le> month t \<and> month t \<le> 12 \<and> 1 \<le> day t \<and> day t \<le> 31
     \<and> 0 \<le> hour t \<and> hour t \<le> 23 \<and> 0 \<le> minute t \<and> minute t \<le> 59"

text \<open>
  A clock for concrete runs: adding minutes to a time of day, right as long as the sum
  stays within the same day.
\<close>

definition same_day_add :: "datetime \<Rightarrow> int \<Rightarrow> datetime" where
  "same_day_add t m =
     t\<lparr>hour := (hour t * 60 + minute t + m) div 60,
       minute := (hour t * 60 + minute t + m) mod 60\<rparr>"

text \<open>
  An object whose cache holds position 3 (shift 1, step 2), on a transport that answers
  the next read with the register \<open>0xA5\<close> and the write after it without error.
\<close>

definition demo_state :: "response list etatherm" where
  "demo_state =
     \<lparr>client = [ok_response [0xA5], ok_response []], address = 1,
      params = Some [3 \<mapsto> \<lparr>used = True, name = ''Hall'', shift = 1, step = 2\<rparr>],
      slept = 0, trace = []\<rparr>"

text \<open>What a call returned, if it returned, and the object state it left behind.\<close>

definition returned :: "('a, 'd) result \<Rightarrow> 'a option" where
  "returned r = (case r of Inl x \<Rightarrow> None | Inr (v, s) \<Rightarrow> Some v)"

definition final_state :: "('a, 'd) result \<Rightarrow> 'd etatherm" where
  "final_state r = (case r of Inl (e, s) \<Rightarrow> s | Inr (v, s) \<Rightarrow> s)"

text \<open>The exception a call raised, if it raised.\<close>

definition raised :: "('a, 'd) result \<Rightarrow> py_error option" where
  "raised r = (case r of Inl (e, s) \<Rightarrow> Some e | Inr x \<Rightarrow> None)"

text \<open>
  Successive calls of one transport operation, from the transport state \<open>d\<close>:
  \<open>nth_call call d n\<close> is the answer to call number \<open>n + 1\<close> and the transport state
  after it.
\<close>

fun nth_call :: "('d \<Rightarrow> response \<times> 'd) \<Rightarrow> 'd \<Rightarrow> nat \<Rightarrow> response \<times> 'd" where
  "nth_call call d 0 = call d"
| "nth_call call d (Suc n) = nth_call call (snd (call d)) n"

text \<open>
  The cache is either not populated yet or holds an entry for each of the positions
  1 to 16.
\<close>

definition cache_complete :: "'d etatherm \<Rightarrow> bool" where
  "cache_complete s = (case params s of None \<Rightarrow> True | Some ps \<Rightarrow> dom ps = {1..16})"

text \<open>
  A script on which position 1 answers its configuration read with a used block and all
  ten attempts of its name read fail with an error answer that carries no registers.
\<close>

definition name_error_script :: "response list" where
  "name_error_script =
     [ok_response [0x01, 0x00, 0x41, 0x00],
      error_response, error_response, error_response, error_response, error_response,
      error_response, error_response, error_response, error_response, error_response]"

section \<open>Bit fields of a byte, arithmetically\<close>

lemma int_and_3: "(x::int) AND 3 = x mod 4"
  using take_bit_eq_mask [of 2 x] by (simp add: take_bit_eq_mod mask_eq_exp_minus_1)

lemma int_and_7: "(x::int) AND 7 = x mod 8"
  using take_bit_eq_mask [of 3 x] by (simp add: take_bit_eq_mod mask_eq_exp_minus_1)

lemma int_and_31: "(x::int) AND 0x1F = x mod 32"
  using take_bit_eq_mask [of 5 x] by (simp add: take_bit_eq_mod mask_eq_exp_minus_1)

lemma int_and_63: "(x::int) AND 0x3F = x mod 64"
  using take_bit_eq_mask [of 6 x] by (simp add: take_bit_eq_mod mask_eq_exp_minus_1)

lemma uint_byte_bounds: "0 \<le> uint (b::byte) \<and> uint b < 256"
  using uint_lt2p [of b] by simp

lemma drop_6_and_3: "drop_bit 6 (uint (b::byte)) AND 3 = uint b div 64"
proof -
  have "drop_bit 6 (uint b) AND 3 = (uint b div 64) mod 4"
    by (simp add: drop_bit_eq_div int_and_3)
  also have "\<dots> = uint b div 64"
  proof -
    from uint_byte_bounds [of b] have "0 \<le> uint b div 64" "uint b div 64 < 4"
      by linarith+
    then show ?thesis by simp
  qed
  finally show ?thesis .
qed

lemma sign_correction:
  "0 \<le> (r::int) \<Longrightarrow> r < 64 \<Longrightarrow> r - 64 * (r div 32) = (if r < 32 then r else r - 64)"
proof -
  assume r: "0 \<le> r" "r < 64"
  show ?thesis
  proof (cases "r < 32")
    case True
    with r have "r div 32 = 0" by simp
    with True show ?thesis by simp
  next
    case False
    with r have "r div 32 = 1" by linarith
    with False show ?thesis by simp
  qed
qed

lemma read_params_decode_4:
  "read_params_decode [b0, b1, b2, b3] =
     Inr (uint b0 mod 8 \<noteq> 0,
          (let r = uint b2 mod 64 in r - 64 * (r div 32)),
          uint b2 div 64 + 1)"
  by (simp add: read_params_decode_def py_index_def Let_def int_and_7 int_and_63 drop_6_and_3)

lemma get_parameters_cached:
  "params s = Some ps \<Longrightarrow>
   get_parameters M cp s =
     Inr (Some (\<lambda>pos. case ps pos of
                        None \<Rightarrow> None
                      | Some p \<Rightarrow>
                          if used p then
                            Some \<lparr>info_name = name p,
                                  info_min = (1 + shift p) * step p,
                                  info_max = (30 + shift p) * step p\<rparr>
                          else None), s)"
  by (simp add: get_parameters_def ensure_params_def)

section \<open>Unfolding the loops on concrete runs\<close>

lemma retry_loop_numeral:
  "retry_loop call rq (numeral k) regs_l s =
     (let (r, c) = call (client s);
          s1 = s\<lparr>client := c, trace := trace s @ [rq]\<rparr>
      in if isError r
         then retry_loop call rq (pred_numeral k) (Some r)
                (s1\<lparr>slept := slept s1 + CONF_MODBUS_RETR_WAIT\<rparr>)
         else (Some r, s1))"
  by (simp add: numeral_eq_Suc)

lemma upto_1_16: "[1..16] = [1, 2, 3, 4, 5, 6, 7, 8, 9, 10, 11, 12, 13, 14, 15, 16 :: int]"
  by (simp add: upto.simps)

lemmas eval_defs = read_params_def read_params_pos_def async_read_holding_registers_def
  check_connection_def script_modbus_def script_next_def error_response_def ok_response_def
  registers_bytes_def py_bytes_def read_params_decode_def py_index_def decode_1250_def
  ascii_table_def char_of_def init_def CONF_MODBUS_RETR_def CONF_MODBUS_RETR_WAIT_def
  retry_loop_numeral upto_1_16 Let_def

section \<open>One iteration of the loop of \<^verbatim>\<open>__read_params\<close>\<close>

lemma registers_bytes_uint:
  "registers r = Some (map uint (bs::byte list)) \<Longrightarrow> registers_bytes r = Inr bs"
  by (simp add: registers_bytes_def py_bytes_def list_all_iff uint_byte_bounds map_idI)

lemma read_params_pos_stores:
  assumes "async_read_holding_registers M (address s) (0x1100 + (pos - 1) * 0x10) 4 s
             = Inr (param_response, s1)"
    and "\<not> isError param_response"
    and "registers_bytes param_response = Inr ps"
    and "read_params_decode ps = Inr (True, shift1, step1)"
    and "async_read_holding_registers M (address s1) (0x1030 + (pos - 1) * 8) 8 s1
             = Inr (name_response, s2)"
    and "registers_bytes name_response = Inr name0"
    and "decode_1250 cp (if bytes_find name0 0 \<noteq> - 1 then take (nat (bytes_find name0 0)) name0
                         else name0) = Inr name2"
  shows "read_params_pos M cp pos res s =
           Inr (res(pos \<mapsto> \<lparr>used = True, name = name2, shift = shift1, step = step1\<rparr>), s2)"
  using assms by (simp add: read_params_pos_def Let_def)

lemma read_params_pos_block:
  assumes "async_read_holding_registers M (address s) (0x1100 + (pos - 1) * 0x10) 4 s
             = Inr (param_response, s1)"
    and "\<not> isError param_response"
    and "registers param_response
           = Some [uint (b0::byte), uint (b1::byte), uint (b2::byte), uint (b3::byte)]"
    and "uint b0 mod 8 \<noteq> 0"
    and "async_read_holding_registers M (address s1) (0x1030 + (pos - 1) * 8) 8 s1
             = Inr (name_response, s2)"
    and "registers_bytes name_response = Inr name0"
    and "decode_1250 cp (if bytes_find name0 0 \<noteq> - 1 then take (nat (bytes_find name0 0)) name0
                         else name0) = Inr name2"
  shows "read_params_pos M cp pos res s =
           Inr (res(pos \<mapsto> \<lparr>used = True, name = name2,
                              shift = (let r = uint b2 mod 64 in r - 64 * (r div 32)),
                              step = uint b2 div 64 + 1\<rparr>), s2)"
proof -
  have "registers param_response = Some (map uint [b0, b1, b2, b3])"
    using assms(3) by simp
  then have rb: "registers_bytes param_response = Inr [b0, b1, b2, b3]"
    by (rule registers_bytes_uint)
  have dec: "read_params_decode [b0, b1, b2, b3] =
      Inr (True, (let r = uint b2 mod 64 in r - 64 * (r div 32)), uint b2 div 64 + 1)"
    using assms(4) by (simp add: read_params_decode_4)
  show ?thesis
    by (rule read_params_pos_stores [OF assms(1) assms(2) rb dec assms(5) assms(6) assms(7)])
qed

lemma read_params_pos_unused:
  assumes "async_read_holding_registers M (address s) (0x1100 + (pos - 1) * 0x10) 4 s
             = Inr (param_response, s1)"
    and "\<not> isError param_response"
    and "registers_bytes param_response = Inr ps"
    and "read_params_decode ps = Inr (False, shift1, step1)"
  shows "read_params_pos M cp pos res s =
           Inr (res(pos \<mapsto> \<lparr>used = False, name = [], shift = shift1, step = step1\<rparr>), s1)"
  using assms by (simp add: read_params_pos_def Let_def)

lemma read_params_pos_timeout:
  assumes "async_read_holding_registers M (address s) (0x1100 + (pos - 1) * 0x10) 4 s
             = Inr (param_response, s1)"
    and "isError param_response"
  shows "read_params_pos M cp pos res s =
           Inr (res(pos \<mapsto> \<lparr>used = False, name = ''<timeout>'', shift = 5, step = 1\<rparr>), s1)"
  using assms by (simp add: read_params_pos_def Let_def)

lemma read_params_pos_entry:
  "read_params_pos M cp pos res s = Inr (res1, s1) \<Longrightarrow> \<exists>e. res1 = res(pos \<mapsto> e)"
  by (auto simp: read_params_pos_def Let_def split: sum.splits prod.splits if_splits)

lemma read_params_loop_frame:
  "read_params_loop M cp ps res s = Inr (res1, s1) \<Longrightarrow> pos \<notin> set ps \<Longrightarrow> res1 pos = res pos"
proof (induction ps arbitrary: res s)
  case Nil
  then show ?case by simp
next
  case (Cons p ps)
  from Cons.prems(1) obtain r2 s2 where
    a: "read_params_pos M cp p res s = Inr (r2, s2)" and
    b: "read_params_loop M cp ps r2 s2 = Inr (res1, s1)"
    by (auto split: sum.splits)
  from read_params_pos_entry [OF a] obtain e where "r2 = res(p \<mapsto> e)" by blast
  moreover from Cons.IH [OF b] Cons.prems(2) have "res1 pos = r2 pos" by simp
  ultimately show ?case using Cons.prems(2) by simp
qed

lemma read_params_loop_dom:
  "read_params_loop M cp ps res s = Inr (res1, s1) \<Longrightarrow> dom res1 = dom res \<union> set ps"
proof (induction ps arbitrary: res s)
  case Nil
  then show ?case by simp
next
  case (Cons p ps)
  from Cons.prems(1) obtain r2 s2 where
    a: "read_params_pos M cp p res s = Inr (r2, s2)" and
    b: "read_params_loop M cp ps r2 s2 = Inr (res1, s1)"
    by (auto split: sum.splits)
  from read_params_pos_entry [OF a] obtain e where "r2 = res(p \<mapsto> e)" by blast
  with Cons.IH [OF b] show ?case by auto
qed

section \<open>The payload of \<^verbatim>\<open>set_temporary_temperature\<close>\<close>

lemma tmp_mod: "set_temporary_temperature_temp t p = (\<lfloor>t\<rfloor> div step p - shift p) mod 32"
  by (simp add: set_temporary_temperature_temp_def int_and_31)

lemma high2_plus_low5:
  "((x::int) AND 0xC0) + (y AND 0x1F) = (x AND 0xC0) OR (y AND 0x1F)"
proof (rule disjunctive_add_eq_or)
  have "(x AND 0xC0) AND (y AND 0x1F) = (x AND y) AND (0xC0 AND 0x1F)"
    by (simp only: and.assoc and.left_commute)
  also have "(0xC0::int) AND 0x1F = 0" by simp
  finally show "(x AND 0xC0) AND (y AND 0x1F) = 0" by simp
qed

lemma high2_range: "0 \<le> uint (b::byte) AND 0xC0 \<and> uint b AND 0xC0 \<le> 0xC0"
  by (simp add: AND_upper2)

lemma first_byte_word:
  "(word_of_int ((uint (d0::byte) AND 0xC0) + (y AND 0x1F)) :: byte)
      = (d0 AND 0xC0) OR word_of_int (y AND 0x1F)"
  by (simp only: high2_plus_low5 of_int_or_eq of_int_and_eq word_of_int_uint) simp

lemma first_byte_range:
  "0 \<le> (uint (d0::byte) AND 0xC0) + (y AND 0x1F) \<and> (uint d0 AND 0xC0) + (y AND 0x1F) < 256"
proof -
  have r: "0 \<le> y AND 0x1F" "y AND 0x1F < 32"
    by (simp_all add: int_and_31)
  from high2_range [of d0] r show ?thesis by linarith
qed

lemma first_byte:
  "py_bytes [(uint (d0::byte) AND 0xC0) + (y AND 0x1F)]
     = Inr [(d0 AND 0xC0) OR word_of_int (y AND 0x1F)]"
proof -
  from first_byte_range [of d0 y]
  have "0 \<le> (uint d0 AND 0xC0) + (y AND 0x1F)" "(uint d0 AND 0xC0) + (y AND 0x1F) < 256"
    by simp_all
  moreover note first_byte_word [of d0 y]
  ultimately show ?thesis
    by (simp add: py_bytes_def)
qed

lemma first_byte_uint:
  "uint ((d0 AND 0xC0) OR word_of_int (y AND 0x1F) :: byte) = (uint d0 AND 0xC0) + (y AND 0x1F)"
proof -
  have "uint (word_of_int ((uint d0 AND 0xC0) + (y AND 0x1F)) :: byte)
          = ((uint d0 AND 0xC0) + (y AND 0x1F)) mod 2 ^ LENGTH(8)"
    by (rule uint_word_of_int)
  also have "\<dots> = (uint d0 AND 0xC0) + (y AND 0x1F)"
    using first_byte_range [of d0 y] by simp
  finally show ?thesis by (simp only: first_byte_word)
qed

lemma get_toy_range: "valid_datetime t \<Longrightarrow> 0 \<le> get_toy t \<and> get_toy t < 65536"
proof -
  assume v: "valid_datetime t"
  then have "0 \<le> minute t div 15" "minute t div 15 \<le> 3"
    unfolding valid_datetime_def by linarith+
  with v show ?thesis
    unfolding valid_datetime_def get_toy_def by linarith
qed

lemma to_bytes_2_big_ok:
  "0 \<le> v \<Longrightarrow> v < 65536 \<Longrightarrow>
   to_bytes_2_big v = Inr [word_of_int (v div 256), word_of_int (v mod 256)]"
  by (simp add: to_bytes_2_big_def)

lemma big_endian_value:
  "0 \<le> v \<Longrightarrow> v < 65536 \<Longrightarrow>
   uint (word_of_int (v div 256) :: byte) * 256 + uint (word_of_int (v mod 256) :: byte) = v"
proof -
  assume v: "0 \<le> v" "v < 65536"
  then have "0 \<le> v div 256" "v div 256 < 256" by linarith+
  then have "uint (word_of_int (v div 256) :: byte) = v div 256"
    by (simp add: uint_word_of_int)
  moreover have "uint (word_of_int (v mod 256) :: byte) = v mod 256"
    by (simp add: uint_word_of_int)
  ultimately show ?thesis by simp
qed

lemma data_ok:
  "0 \<le> start \<Longrightarrow> start < 65536 \<Longrightarrow> 0 \<le> end \<Longrightarrow> end < 65536 \<Longrightarrow>
   set_temporary_temperature_data (d0 # rest) (set_temporary_temperature_temp t p) start end =
     Inr [(d0 AND 0xC0) OR word_of_int (set_temporary_temperature_temp t p),
          word_of_int (start div 256), word_of_int (start mod 256),
          word_of_int (end div 256), word_of_int (end mod 256)]"
  unfolding set_temporary_temperature_temp_def
  by (simp add: set_temporary_temperature_data_def py_index_def first_byte to_bytes_2_big_ok)

lemma set_temporary_temperature_writes:
  assumes "ensure_params M cp s = Inr (u, s1)" and "params s1 = Some ps" and "ps pos = Some p"
    and "step p \<noteq> 0"
    and "async_read_holding_registers M (address s1) (0x1100 + (pos - 1) * 0x10 + 0x03) 1 s1
           = Inr (response, s2)"
    and "\<not> isError response" and "registers_bytes response = Inr data"
    and "set_temporary_temperature_data data (set_temporary_temperature_temp temperature p)
           (get_toy (add_minutes now (- 0))) (get_toy (add_minutes now (duration + 1)))
           = Inr data1"
  shows "set_temporary_temperature M cp add_minutes now pos temperature duration s =
     (case async_write_register M (address s2) (0x1100 + (pos - 1) * 0x10 + 0x03) data1 s2 of
        Inl x \<Rightarrow> Inl x
      | Inr (response1, s3) \<Rightarrow> Inr (\<not> isError response1, s3))"
  using assms
  by (simp add: set_temporary_temperature_def Let_def split: sum.splits prod.splits)

lemmas facade_eval_defs = set_temporary_temperature_def set_mode_def ensure_params_def
  async_read_holding_registers_def async_write_register_def check_connection_def
  script_modbus_def script_next_def ok_response_def error_response_def CONF_MODBUS_RETR_def
  CONF_MODBUS_RETR_WAIT_def retry_loop_numeral registers_bytes_def py_bytes_def
  set_temporary_temperature_temp_def set_temporary_temperature_data_def set_mode_data_def
  py_index_def to_bytes_2_big_def get_toy_def same_day_add_def Let_def

section \<open>Levels, mode bytes and requirement bytes\<close>

lemma tmp_of_int:
  "set_temporary_temperature_temp (of_int t) p = (t div step p - shift p) mod 32"
  by (simp only: tmp_mod floor_of_int)

lemma round_trip_level:
  assumes "step p \<noteq> 0" and "0 \<le> b" and "b < 32"
  shows "set_temporary_temperature_temp (of_int ((b + shift p) * step p)) p = b"
proof -
  have "(b + shift p) * step p div step p = b + shift p"
    using assms(1) by simp
  then have "set_temporary_temperature_temp (of_int ((b + shift p) * step p)) p = b mod 32"
    by (simp only: tmp_of_int) simp
  with assms(2,3) show ?thesis by simp
qed

lemma in_range_level:
  assumes "0 < step p" and "(1 + shift p) * step p \<le> t" and "t \<le> (30 + shift p) * step p"
    and "step p dvd t"
  shows "\<exists>b. 1 \<le> b \<and> b \<le> 30 \<and> t = (b + shift p) * step p"
proof -
  from assms(4) obtain q where q: "t = step p * q" by (auto simp: dvd_def)
  have "1 + shift p \<le> q"
    using assms(1,2) q by (simp add: mult.commute)
  moreover have "q \<le> 30 + shift p"
    using assms(1,3) q by (simp add: mult.commute)
  ultimately have "1 \<le> q - shift p" "q - shift p \<le> 30" by linarith+
  moreover have "t = ((q - shift p) + shift p) * step p" using q by (simp add: mult.commute)
  ultimately show ?thesis by blast
qed

lemma wrap_level:
  assumes "step p \<noteq> 0"
  shows "set_temporary_temperature_temp (of_int (t + 32 * step p)) p
           = set_temporary_temperature_temp (of_int t) p"
proof -
  have "(t + 32 * step p) div step p = t div step p + 32"
    using assms by simp
  moreover have "t div step p + 32 - shift p = (t div step p - shift p) + 32"
    by simp
  ultimately have "((t + 32 * step p) div step p - shift p) mod 32
      = ((t div step p - shift p) + 32) mod 32"
    by (simp only:)
  also have "\<dots> = (t div step p - shift p) mod 32"
    by (rule mod_add_self2)
  finally show ?thesis by (simp only: tmp_of_int)
qed

lemma and_DF: "((d0::byte) AND 0xDF) AND 0x20 = 0"
  by (simp add: and.assoc)

lemma and_DF': "((d0::byte) AND 0xDF) AND 0xDF = d0 AND 0xDF"
  by (simp add: and.assoc)

lemma or_20: "((d0::byte) OR 0x20) AND 0x20 = 0x20"
  by (simp add: bit.conj_disj_distrib2)

lemma or_20': "((d0::byte) OR 0x20) AND 0xDF = d0 AND 0xDF"
  by (simp add: bit.conj_disj_distrib2)

lemma bit_DF: "bit ((d0::byte) AND 0xDF) n \<longleftrightarrow> bit d0 n \<and> n \<noteq> 5"
proof (cases "n < 8")
  case True
  then have "n \<in> {0, 1, 2, 3, 4, 5, 6, 7}" by auto
  then show ?thesis
    by (auto simp: bit_and_iff numeral_eq_Suc bit_Suc)
next
  case False
  then show ?thesis by (auto simp: bit_and_iff dest: bit_imp_le_length)
qed

lemma bit_20: "bit ((d0::byte) OR 0x20) n \<longleftrightarrow> bit d0 n \<or> n = 5"
proof (cases "n < 8")
  case True
  then have "n \<in> {0, 1, 2, 3, 4, 5, 6, 7}" by auto
  then show ?thesis
    by (auto simp: bit_or_iff numeral_eq_Suc bit_Suc)
next
  case False
  then show ?thesis by (auto simp: bit_or_iff dest: bit_imp_le_length)
qed

lemma set_mode_data_auto:
  "set_mode_data True (d0 # rest) = Inr [d0 AND 0xDF, 0x10, 0x80, 0x10, 0x80]"
proof -
  have "0 \<le> uint d0 AND 0xDF" "uint d0 AND 0xDF < 256"
    using AND_upper2 [of 223 "uint d0"] by simp_all
  moreover have "(word_of_int (uint d0 AND 0xDF) :: byte) = d0 AND 0xDF"
    by (simp only: of_int_and_eq word_of_int_uint) simp
  ultimately show ?thesis
    by (simp add: set_mode_data_def py_index_def py_bytes_def)
qed

lemma set_mode_data_manual:
  "set_mode_data False [d0, d1, d2, d3, d4, d5] = Inr [d0 OR 0x20, d1, d2, d3, d4]"
proof -
  have "uint d0 OR 0x20 < 2 ^ 8"
    using uint_byte_bounds [of d0] by (intro OR_upper) simp_all
  then have "0 \<le> uint d0 OR 0x20" "uint d0 OR 0x20 < 256"
    by simp_all
  moreover have "(word_of_int (uint d0 OR 0x20) :: byte) = d0 OR 0x20"
    by (simp only: of_int_or_eq word_of_int_uint) simp
  ultimately show ?thesis
    by (simp add: set_mode_data_def py_index_def py_bytes_def)
qed

lemma required_entry_eq:
  "required_entry (uint (d::byte)) p =
     \<lparr>temp = (uint d mod 32 + shift p) * step p, flag = uint d div 32\<rparr>"
  by (simp add: required_entry_def Let_def int_and_31 drop_bit_eq_div)

lemma flag_range:
  "0 \<le> flag (required_entry (uint (d::byte)) p) \<and> flag (required_entry (uint d) p) \<le> 7"
proof -
  from uint_byte_bounds [of d] have "0 \<le> uint d" "uint d < 256" by simp_all
  then have "0 \<le> uint d div 32" "uint d div 32 \<le> 7" by linarith+
  then show ?thesis by (simp add: required_entry_eq)
qed


lemma set_mode_writes:
  assumes "async_read_holding_registers M (address s) (0x1100 + (pos - 1) * 0x10 + 0x03) 6 s
             = Inr (response, s1)"
    and "\<not> isError response" and "registers_bytes response = Inr data"
    and "set_mode_data auto data = Inr data1"
  shows "set_mode M pos auto s =
     (case async_write_register M (address s1) (0x1100 + (pos - 1) * 0x10 + 0x03) data1 s1 of
        Inl x \<Rightarrow> Inl x
      | Inr (response1, s2) \<Rightarrow> Inr (\<not> isError response1, s2))"
  using assms
  by (simp add: set_mode_def Let_def split: sum.splits prod.splits)

section \<open>The loops over the 16 positions of a block\<close>

lemma required_loop_entry:
  "required_loop data ps xs res0 = Inr res \<Longrightarrow> pos \<in> set xs \<Longrightarrow> ps pos = Some p \<Longrightarrow>
   used p \<Longrightarrow>
   nat (pos - 1) < length data
   \<and> res pos = Some (required_entry (uint (data ! nat (pos - 1))) p)"
proof (induction xs arbitrary: res0)
  case Nil
  then show ?case by simp
next
  case (Cons x xs)
  from Cons.prems(1) obtain q where
    i: "nat (x - 1) < length data" and q: "ps x = Some q" and
    r: "required_loop data ps xs
          (if used q then res0(x \<mapsto> required_entry (uint (data ! nat (x - 1))) q) else res0)
        = Inr res"
    by (auto simp: py_index_def split: if_splits option.splits)
  show ?case
  proof (cases "pos \<in> set xs")
    case True
    from Cons.IH [OF r True Cons.prems(3) Cons.prems(4)] show ?thesis .
  next
    case False
    with Cons.prems(2) have px: "pos = x" by simp
    have frame: "\<And>r0 r1. required_loop data ps xs r0 = Inr r1 \<Longrightarrow> r1 pos = r0 pos"
      using False
    proof (induction xs)
      case Nil
      then show ?case by simp
    next
      case (Cons y ys)
      from Cons.prems(1) obtain q' where
        "required_loop data ps ys
          (if used q' then r0(y \<mapsto> required_entry (uint (data ! nat (y - 1))) q') else r0)
         = Inr r1"
        by (auto simp: py_index_def split: if_splits option.splits)
      from Cons.IH [OF this] Cons.prems(2) show ?case by (auto split: if_splits)
    qed
    from frame [OF r] px q Cons.prems(3) Cons.prems(4) i show ?thesis by simp
  qed
qed

lemma current_loop_entry:
  "current_loop data ps xs res0 = Inr res \<Longrightarrow> pos \<in> set xs \<Longrightarrow> ps pos = Some p \<Longrightarrow>
   used p \<Longrightarrow>
   nat (pos - 1) < length data
   \<and> res pos = Some (current_temp (uint (data ! nat (pos - 1))) p)"
proof (induction xs arbitrary: res0)
  case Nil
  then show ?case by simp
next
  case (Cons x xs)
  from Cons.prems(1) obtain q where
    i: "nat (x - 1) < length data" and q: "ps x = Some q" and
    r: "current_loop data ps xs
          (if used q then res0(x \<mapsto> current_temp (uint (data ! nat (x - 1))) q) else res0)
        = Inr res"
    by (auto simp: py_index_def split: if_splits option.splits)
  show ?case
  proof (cases "pos \<in> set xs")
    case True
    from Cons.IH [OF r True Cons.prems(3) Cons.prems(4)] show ?thesis .
  next
    case False
    with Cons.prems(2) have px: "pos = x" by simp
    have frame: "\<And>r0 r1. current_loop data ps xs r0 = Inr r1 \<Longrightarrow> r1 pos = r0 pos"
      using False
    proof (induction xs)
      case Nil
      then show ?case by simp
    next
      case (Cons y ys)
      from Cons.prems(1) obtain q' where
        "current_loop data ps ys
          (if used q' then r0(y \<mapsto> current_temp (uint (data ! nat (y - 1))) q') else r0)
         = Inr r1"
        by (auto simp: py_index_def split: if_splits option.splits)
      from Cons.IH [OF this] Cons.prems(2) show ?case by (auto split: if_splits)
    qed
    from frame [OF r] px q Cons.prems(3) Cons.prems(4) i show ?thesis by simp
  qed
qed

section \<open>The retry loop\<close>

lemma retry_loop_success:
  "k < n \<Longrightarrow> (\<forall>i<k. isError (fst (nth_call call (client s) i))) \<Longrightarrow>
   \<not> isError (fst (nth_call call (client s) k)) \<Longrightarrow>
   retry_loop call rq n regs_l s =
     (Some (fst (nth_call call (client s) k)),
      s\<lparr>client := snd (nth_call call (client s) k),
        trace := trace s @ replicate (Suc k) rq,
        slept := slept s + int k * CONF_MODBUS_RETR_WAIT\<rparr>)"
proof (induction k arbitrary: n s regs_l)
  case 0
  then obtain m where n: "n = Suc m" by (cases n) auto
  obtain r c where rc: "call (client s) = (r, c)" by (cases "call (client s)")
  with 0(3) have "\<not> isError r" by simp
  with rc show ?case
    unfolding n by (simp add: Let_def)
next
  case (Suc k)
  then obtain m where n: "n = Suc m" and km: "k < m" by (cases n) auto
  obtain r c where rc: "call (client s) = (r, c)" by (cases "call (client s)")
  from Suc.prems(2) have e0: "isError (fst (nth_call call (client s) 0))" by blast
  with rc have er: "isError r" by simp
  let ?s1 = "s\<lparr>client := c, trace := trace s @ [rq], slept := slept s + CONF_MODBUS_RETR_WAIT\<rparr>"
  have a: "\<forall>i<k. isError (fst (nth_call call (client ?s1) i))"
  proof (intro allI impI)
    fix i assume "i < k"
    then have "Suc i < Suc k" by simp
    with Suc.prems(2) have "isError (fst (nth_call call (client s) (Suc i)))" by blast
    with rc show "isError (fst (nth_call call (client ?s1) i))" by simp
  qed
  have b: "\<not> isError (fst (nth_call call (client ?s1) k))"
    using Suc.prems(3) rc by simp
  from Suc.IH [OF km a b, of "Some r"] rc er show ?case
    unfolding n by (simp add: Let_def algebra_simps)
qed

lemma retry_loop_exhausted:
  "(\<forall>i<Suc n. isError (fst (nth_call call (client s) i))) \<Longrightarrow>
   retry_loop call rq (Suc n) regs_l s =
     (Some (fst (nth_call call (client s) n)),
      s\<lparr>client := snd (nth_call call (client s) n),
        trace := trace s @ replicate (Suc n) rq,
        slept := slept s + int (Suc n) * CONF_MODBUS_RETR_WAIT\<rparr>)"
proof (induction n arbitrary: s regs_l)
  case 0
  obtain r c where rc: "call (client s) = (r, c)" by (cases "call (client s)")
  with 0 have "isError r" by simp
  with rc show ?case by (simp add: Let_def)
next
  case (Suc n)
  obtain r c where rc: "call (client s) = (r, c)" by (cases "call (client s)")
  from Suc.prems have e0: "isError (fst (nth_call call (client s) 0))" by blast
  with rc have er: "isError r" by simp
  let ?s1 = "s\<lparr>client := c, trace := trace s @ [rq], slept := slept s + CONF_MODBUS_RETR_WAIT\<rparr>"
  have a: "\<forall>i<Suc n. isError (fst (nth_call call (client ?s1) i))"
  proof (intro allI impI)
    fix i assume "i < Suc n"
    then have "Suc i < Suc (Suc n)" by simp
    with Suc.prems have "isError (fst (nth_call call (client s) (Suc i)))" by blast
    with rc show "isError (fst (nth_call call (client ?s1) i))" by simp
  qed
  from Suc.IH [OF a, of "Some r"] rc er show ?case
    by (simp add: Let_def algebra_simps)
qed

lemma async_read_success:
  assumes "kw = (if unit \<noteq> 0 then Some unit else None)"
    and "s1 = snd (check_connection M s)"
    and "call = (\<lambda>c. client_read_holding_registers M c addr count kw)"
    and "k < CONF_MODBUS_RETR"
    and "\<forall>i<k. isError (fst (nth_call call (client s1) i))"
    and "\<not> isError (fst (nth_call call (client s1) k))"
  shows "async_read_holding_registers M unit addr count s =
     Inr (fst (nth_call call (client s1) k),
          s1\<lparr>client := snd (nth_call call (client s1) k),
             trace := trace s1 @ replicate (Suc k) (ReadHolding addr count kw),
             slept := slept s1 + int k * CONF_MODBUS_RETR_WAIT\<rparr>)"
  using retry_loop_success [OF assms(4) assms(5) assms(6), of "ReadHolding addr count kw" None]
  unfolding async_read_holding_registers_def Let_def assms(1) assms(2) assms(3)
  by simp

lemma async_read_exhausted:
  assumes "kw = (if unit \<noteq> 0 then Some unit else None)"
    and "s1 = snd (check_connection M s)"
    and "call = (\<lambda>c. client_read_holding_registers M c addr count kw)"
    and "\<forall>i<CONF_MODBUS_RETR. isError (fst (nth_call call (client s1) i))"
  shows "async_read_holding_registers M unit addr count s =
     Inr (fst (nth_call call (client s1) 9),
          s1\<lparr>client := snd (nth_call call (client s1) 9),
             trace := trace s1 @ replicate 10 (ReadHolding addr count kw),
             slept := slept s1 + 10 * CONF_MODBUS_RETR_WAIT\<rparr>)"
proof -
  from assms(4) have "\<forall>i<Suc 9. isError (fst (nth_call call (client s1) i))"
    by (simp add: CONF_MODBUS_RETR_def)
  from retry_loop_exhausted [OF this, of "ReadHolding addr count kw" None]
  have "retry_loop call (ReadHolding addr count kw) CONF_MODBUS_RETR None s1 =
     (Some (fst (nth_call call (client s1) 9)),
      s1\<lparr>client := snd (nth_call call (client s1) 9),
         trace := trace s1 @ replicate 10 (ReadHolding addr count kw),
         slept := slept s1 + 10 * CONF_MODBUS_RETR_WAIT\<rparr>)"
    by (simp add: CONF_MODBUS_RETR_def)
  then show ?thesis
    unfolding async_read_holding_registers_def Let_def assms(1) assms(2) assms(3)
    by simp
qed

lemma async_write_success:
  assumes "kw = (if unit \<noteq> 0 then Some unit else None)"
    and "s1 = snd (check_connection M s)"
    and "call = (\<lambda>c. client_write_registers M c addr (map uint payload) kw)"
    and "k < CONF_MODBUS_RETR"
    and "\<forall>i<k. isError (fst (nth_call call (client s1) i))"
    and "\<not> isError (fst (nth_call call (client s1) k))"
  shows "async_write_register M unit addr payload s =
     Inr (fst (nth_call call (client s1) k),
          s1\<lparr>client := snd (nth_call call (client s1) k),
             trace := trace s1 @ replicate (Suc k) (WriteRegisters addr (map uint payload) kw),
             slept := slept s1 + int k * CONF_MODBUS_RETR_WAIT\<rparr>)"
  using retry_loop_success [OF assms(4) assms(5) assms(6),
      of "WriteRegisters addr (map uint payload) kw" None]
  unfolding async_write_register_def Let_def assms(1) assms(2) assms(3)
  by simp

lemma async_write_exhausted:
  assumes "kw = (if unit \<noteq> 0 then Some unit else None)"
    and "s1 = snd (check_connection M s)"
    and "call = (\<lambda>c. client_write_registers M c addr (map uint payload) kw)"
    and "\<forall>i<CONF_MODBUS_RETR. isError (fst (nth_call call (client s1) i))"
  shows "async_write_register M unit addr payload s =
     Inr (fst (nth_call call (client s1) 9),
          s1\<lparr>client := snd (nth_call call (client s1) 9),
             trace := trace s1 @ replicate 10 (WriteRegisters addr (map uint payload) kw),
             slept := slept s1 + 10 * CONF_MODBUS_RETR_WAIT\<rparr>)"
proof -
  from assms(4) have "\<forall>i<Suc 9. isError (fst (nth_call call (client s1) i))"
    by (simp add: CONF_MODBUS_RETR_def)
  from retry_loop_exhausted [OF this, of "WriteRegisters addr (map uint payload) kw" None]
  have "retry_loop call (WriteRegisters addr (map uint payload) kw) CONF_MODBUS_RETR None s1 =
     (Some (fst (nth_call call (client s1) 9)),
      s1\<lparr>client := snd (nth_call call (client s1) 9),
         trace := trace s1 @ replicate 10 (WriteRegisters addr (map uint payload) kw),
         slept := slept s1 + 10 * CONF_MODBUS_RETR_WAIT\<rparr>)"
    by (simp add: CONF_MODBUS_RETR_def)
  then show ?thesis
    unfolding async_write_register_def Let_def assms(1) assms(2) assms(3)
    by simp
qed

section \<open>The cache is written by \<^verbatim>\<open>__read_params\<close> only\<close>

lemma retry_loop_params: "params (snd (retry_loop call rq n regs_l s)) = params s"
  by (induction n arbitrary: regs_l s) (simp_all add: Let_def split: prod.splits)

lemma check_connection_params: "params (snd (check_connection M s)) = params s"
  by (simp add: check_connection_def async_connect_def split: prod.splits)

lemma async_read_params:
  "params (final_state (async_read_holding_registers M unit addr count s)) = params s"
proof -
  let ?kw = "if unit \<noteq> 0 then Some unit else None"
  obtain r s2 where
    l: "retry_loop (\<lambda>c. client_read_holding_registers M c addr count ?kw)
          (ReadHolding addr count ?kw) CONF_MODBUS_RETR None (snd (check_connection M s)) = (r, s2)"
    by (cases "retry_loop (\<lambda>c. client_read_holding_registers M c addr count ?kw)
          (ReadHolding addr count ?kw) CONF_MODBUS_RETR None (snd (check_connection M s))")
  from retry_loop_params [of "\<lambda>c. client_read_holding_registers M c addr count ?kw"
      "ReadHolding addr count ?kw" CONF_MODBUS_RETR None "snd (check_connection M s)"] l
  have "params s2 = params s" by (simp add: check_connection_params)
  with l show ?thesis
    by (cases r) (simp_all add: async_read_holding_registers_def final_state_def Let_def)
qed

lemma async_write_params:
  "params (final_state (async_write_register M unit addr payload s)) = params s"
proof -
  let ?kw = "if unit \<noteq> 0 then Some unit else None"
  obtain r s2 where
    l: "retry_loop (\<lambda>c. client_write_registers M c addr (map uint payload) ?kw)
          (WriteRegisters addr (map uint payload) ?kw) CONF_MODBUS_RETR None
          (snd (check_connection M s)) = (r, s2)"
    by (cases "retry_loop (\<lambda>c. client_write_registers M c addr (map uint payload) ?kw)
          (WriteRegisters addr (map uint payload) ?kw) CONF_MODBUS_RETR None
          (snd (check_connection M s))")
  from retry_loop_params [of "\<lambda>c. client_write_registers M c addr (map uint payload) ?kw"
      "WriteRegisters addr (map uint payload) ?kw" CONF_MODBUS_RETR None
      "snd (check_connection M s)"] l
  have "params s2 = params s" by (simp add: check_connection_params)
  with l show ?thesis
    by (cases r) (simp_all add: async_write_register_def final_state_def Let_def)
qed

lemma async_read_Inr: "async_read_holding_registers M unit addr count s = Inr (r, s1) \<Longrightarrow>
  params s1 = params s"
  using async_read_params [of M unit addr count s] by (simp add: final_state_def)

lemma async_read_Inl: "async_read_holding_registers M unit addr count s = Inl (e, s1) \<Longrightarrow>
  params s1 = params s"
  using async_read_params [of M unit addr count s] by (simp add: final_state_def)

lemma async_write_Inr: "async_write_register M unit addr payload s = Inr (r, s1) \<Longrightarrow>
  params s1 = params s"
  using async_write_params [of M unit addr payload s] by (simp add: final_state_def)

lemma async_write_Inl: "async_write_register M unit addr payload s = Inl (e, s1) \<Longrightarrow>
  params s1 = params s"
  using async_write_params [of M unit addr payload s] by (simp add: final_state_def)

lemma set_mode_params: "params (final_state (set_mode M pos auto s)) = params s"
  by (auto simp: set_mode_def final_state_def Let_def
      split: sum.splits prod.splits
      dest!: async_read_Inr async_read_Inl async_write_Inr async_write_Inl)

lemma read_params_pos_params:
  "params (final_state (read_params_pos M cp pos res s)) = params s"
  by (auto simp: read_params_pos_def final_state_def Let_def
      split: sum.splits prod.splits
      dest!: async_read_Inr async_read_Inl)

lemma read_params_loop_params:
  "params (final_state (read_params_loop M cp ps res s)) = params s"
proof (induction ps arbitrary: res s)
  case Nil
  then show ?case by (simp add: final_state_def)
next
  case (Cons p ps)
  show ?case
  proof (cases "read_params_pos M cp p res s")
    case (Inl x)
    with read_params_pos_params [of M cp p res s] show ?thesis by simp
  next
    case (Inr y)
    obtain r1 s1 where y: "y = (r1, s1)" by (cases y)
    with Inr read_params_pos_params [of M cp p res s] have "params s1 = params s"
      by (simp add: final_state_def)
    with Inr y Cons.IH [of r1 s1] show ?thesis by simp
  qed
qed

lemma read_params_Inl: "read_params M cp s = Inl (e, s1) \<Longrightarrow> params s1 = params s"
  using read_params_loop_params [of M cp "[1..16]" Map.empty s]
  by (auto simp: read_params_def final_state_def split: sum.splits prod.splits)

lemma read_params_Inr:
  "read_params M cp s = Inr (u, s1) \<Longrightarrow> \<exists>ps. params s1 = Some ps \<and> dom ps = {1..16}"
proof -
  assume "read_params M cp s = Inr (u, s1)"
  then obtain res s0 where l: "read_params_loop M cp [1..16] Map.empty s = Inr (res, s0)"
    and s1: "s1 = s0\<lparr>params := Some res\<rparr>"
    by (auto simp: read_params_def split: sum.splits prod.splits)
  from read_params_loop_dom [OF l] have "dom res = {1..16}" by simp
  with s1 show ?thesis by simp
qed

lemma ensure_params_cases:
  "(\<exists>ps. params s = Some ps \<and> ensure_params M cp s = Inr ((), s))
   \<or> (params s = None \<and> (\<exists>e s1. ensure_params M cp s = Inl (e, s1) \<and> params s1 = None))
   \<or> (params s = None \<and> (\<exists>s1 ps. ensure_params M cp s = Inr ((), s1) \<and> params s1 = Some ps
         \<and> dom ps = {1..16}))"
proof (cases "params s")
  case None
  show ?thesis
  proof (cases "read_params M cp s")
    case (Inl x)
    obtain e s1 where "x = (e, s1)" by (cases x)
    with Inl None read_params_Inl [of M cp s e s1] show ?thesis
      by (simp add: ensure_params_def)
  next
    case (Inr y)
    obtain u s1 where "y = (u, s1)" by (cases y)
    with Inr None read_params_Inr [of M cp s u s1] show ?thesis
      by (auto simp: ensure_params_def)
  qed
next
  case (Some ps)
  then show ?thesis by (simp add: ensure_params_def)
qed

lemma ensure_params_complete:
  "cache_complete s \<Longrightarrow> cache_complete (final_state (ensure_params M cp s))"
  using ensure_params_cases [of s M cp]
  by (auto simp: cache_complete_def final_state_def)

lemma ensure_params_Inr:
  "ensure_params M cp s = Inr (u, s1) \<Longrightarrow> cache_complete s \<Longrightarrow>
   \<exists>ps. params s1 = Some ps \<and> dom ps = {1..16}"
  using ensure_params_cases [of s M cp]
  by (auto simp: cache_complete_def)

lemma ensure_params_Inl:
  "ensure_params M cp s = Inl (e, s1) \<Longrightarrow> params s1 = None"
  using ensure_params_cases [of s M cp] by auto

lemma ensure_params_kept:
  "params s = Some ps \<Longrightarrow> ensure_params M cp s = Inr ((), s)"
  by (simp add: ensure_params_def)

lemma get_parameters_Inr:
  "get_parameters M cp s = Inr (r, s1) \<Longrightarrow>
   \<exists>ps. params s1 = Some ps
      \<and> r = Some (\<lambda>pos. case ps pos of
                        None \<Rightarrow> None
                      | Some p \<Rightarrow>
                          if used p then
                            Some \<lparr>info_name = name p,
                                  info_min = (1 + shift p) * step p,
                                  info_max = (30 + shift p) * step p\<rparr>
                          else None)"
  using ensure_params_cases [of s M cp]
  by (auto simp: get_parameters_def split: sum.splits prod.splits option.splits)

lemma get_parameters_twice:
  "get_parameters M cp s = Inr (r, s1) \<Longrightarrow> get_parameters M cp s1 = Inr (r, s1)"
proof -
  assume a: "get_parameters M cp s = Inr (r, s1)"
  from get_parameters_Inr [OF a] obtain ps where ps: "params s1 = Some ps"
    and r: "r = Some (\<lambda>pos. case ps pos of
                        None \<Rightarrow> None
                      | Some p \<Rightarrow>
                          if used p then
                            Some \<lparr>info_name = name p,
                                  info_min = (1 + shift p) * step p,
                                  info_max = (30 + shift p) * step p\<rparr>
                          else None)" by blast
  from get_parameters_cached [OF ps, of M cp] r show ?thesis by simp
qed

lemma current_loop_total:
  "length data = 16 \<Longrightarrow> set xs \<subseteq> {1..16} \<Longrightarrow> set xs \<subseteq> dom ps \<Longrightarrow>
   \<exists>res1. current_loop data ps xs res = Inr res1"
proof (induction xs arbitrary: res)
  case Nil
  then show ?case by simp
next
  case (Cons x xs)
  from Cons.prems have x: "1 \<le> x" "x \<le> 16" and d: "x \<in> dom ps" by simp_all
  from x Cons.prems(1) have i: "nat (x - 1) < length data" by simp
  from d obtain p where p: "ps x = Some p" by blast
  from Cons.prems have "set xs \<subseteq> {1..16}" "set xs \<subseteq> dom ps" by simp_all
  from Cons.IH [OF Cons.prems(1) this] i p show ?case
    by (simp add: py_index_def)
qed

lemma required_loop_total:
  "length data = 16 \<Longrightarrow> set xs \<subseteq> {1..16} \<Longrightarrow> set xs \<subseteq> dom ps \<Longrightarrow>
   \<exists>res1. required_loop data ps xs res = Inr res1"
proof (induction xs arbitrary: res)
  case Nil
  then show ?case by simp
next
  case (Cons x xs)
  from Cons.prems have x: "1 \<le> x" "x \<le> 16" and d: "x \<in> dom ps" by simp_all
  from x Cons.prems(1) have i: "nat (x - 1) < length data" by simp
  from d obtain p where p: "ps x = Some p" by blast
  from Cons.prems have "set xs \<subseteq> {1..16}" "set xs \<subseteq> dom ps" by simp_all
  from Cons.IH [OF Cons.prems(1) this] i p show ?case
    by (simp add: py_index_def)
qed

section \<open>What the calls can raise\<close>

lemma retry_loop_some:
  "n \<noteq> 0 \<or> regs_l \<noteq> None \<Longrightarrow> fst (retry_loop call rq n regs_l s) \<noteq> None"
  by (induction n arbitrary: regs_l s) (auto simp: Let_def split: prod.splits)

lemma async_read_returns:
  "\<exists>r s1. async_read_holding_registers M unit addr count s = Inr (r, s1)"
proof -
  let ?kw = "if unit \<noteq> 0 then Some unit else None"
  obtain r s2 where
    l: "retry_loop (\<lambda>c. client_read_holding_registers M c addr count ?kw)
          (ReadHolding addr count ?kw) CONF_MODBUS_RETR None (snd (check_connection M s)) = (r, s2)"
    by (cases "retry_loop (\<lambda>c. client_read_holding_registers M c addr count ?kw)
          (ReadHolding addr count ?kw) CONF_MODBUS_RETR None (snd (check_connection M s))")
  from retry_loop_some [of CONF_MODBUS_RETR None
      "\<lambda>c. client_read_holding_registers M c addr count ?kw"
      "ReadHolding addr count ?kw" "snd (check_connection M s)"] l
  obtain r1 where "r = Some r1" by (auto simp: CONF_MODBUS_RETR_def)
  with l show ?thesis
    by (simp add: async_read_holding_registers_def Let_def)
qed

lemma async_write_returns:
  "\<exists>r s1. async_write_register M unit addr payload s = Inr (r, s1)"
proof -
  let ?kw = "if unit \<noteq> 0 then Some unit else None"
  obtain r s2 where
    l: "retry_loop (\<lambda>c. client_write_registers M c addr (map uint payload) ?kw)
          (WriteRegisters addr (map uint payload) ?kw) CONF_MODBUS_RETR None
          (snd (check_connection M s)) = (r, s2)"
    by (cases "retry_loop (\<lambda>c. client_write_registers M c addr (map uint payload) ?kw)
          (WriteRegisters addr (map uint payload) ?kw) CONF_MODBUS_RETR None
          (snd (check_connection M s))")
  from retry_loop_some [of CONF_MODBUS_RETR None
      "\<lambda>c. client_write_registers M c addr (map uint payload) ?kw"
      "WriteRegisters addr (map uint payload) ?kw" "snd (check_connection M s)"] l
  obtain r1 where "r = Some r1" by (auto simp: CONF_MODBUS_RETR_def)
  with l show ?thesis
    by (simp add: async_write_register_def Let_def)
qed

lemma async_read_no_raise: "async_read_holding_registers M unit addr count s \<noteq> Inl x"
  using async_read_returns [of M unit addr count s] by auto

lemma async_write_no_raise: "async_write_register M unit addr payload s \<noteq> Inl x"
  using async_write_returns [of M unit addr payload s] by auto

lemma registers_bytes_errors:
  "registers_bytes r = Inl e \<Longrightarrow> e = AttributeError \<or> e = ValueError"
  by (auto simp: registers_bytes_def py_bytes_def split: option.splits if_splits)

lemma read_params_decode_errors: "read_params_decode ps = Inl e \<Longrightarrow> e = IndexError"
  by (auto simp: read_params_decode_def py_index_def Let_def split: if_splits)

lemma decode_1250_errors: "decode_1250 cp bs = Inl e \<Longrightarrow> e = UnicodeDecodeError"
  by (auto simp: decode_1250_def split: if_splits)

lemma read_params_pos_errors:
  "read_params_pos M cp pos res s = Inl (e, s1) \<Longrightarrow>
   e \<in> {AttributeError, ValueError, IndexError, UnicodeDecodeError}"
  by (auto simp: read_params_pos_def Let_def async_read_no_raise
      split: sum.splits prod.splits if_splits
      dest: registers_bytes_errors read_params_decode_errors decode_1250_errors)

lemma read_params_loop_errors:
  "read_params_loop M cp ps res s = Inl (e, s1) \<Longrightarrow>
   e \<in> {AttributeError, ValueError, IndexError, UnicodeDecodeError}"
proof (induction ps arbitrary: res s)
  case Nil
  then show ?case by simp
next
  case (Cons p ps)
  show ?case
  proof (cases "read_params_pos M cp p res s")
    case (Inl x)
    with Cons.prems read_params_pos_errors [of M cp p res s e s1] show ?thesis by simp
  next
    case (Inr y)
    obtain r1 s2 where "y = (r1, s2)" by (cases y)
    with Inr Cons.prems Cons.IH [of r1 s2] show ?thesis by simp
  qed
qed

lemma ensure_params_errors:
  "ensure_params M cp s = Inl (e, s1) \<Longrightarrow>
   e \<in> {AttributeError, ValueError, IndexError, UnicodeDecodeError}"
  using read_params_loop_errors [of M cp "[1..16]" Map.empty s e s1]
  by (auto simp: ensure_params_def read_params_def split: if_splits sum.splits prod.splits)

lemma set_temporary_temperature_data_errors:
  "set_temporary_temperature_data data tmp start end = Inl e \<Longrightarrow>
   e \<in> {IndexError, ValueError, OverflowError}"
  by (auto simp: set_temporary_temperature_data_def py_index_def py_bytes_def to_bytes_2_big_def
      split: sum.splits if_splits)

section \<open>The cache across the methods\<close>

lemma set_temporary_temperature_cache:
  assumes "cache_complete s"
  shows "cache_complete
           (final_state (set_temporary_temperature M cp add_minutes now pos temperature duration s))"
proof (cases "ensure_params M cp s")
  case (Inl x)
  obtain e s1 where x: "x = (e, s1)" by (cases x)
  with Inl ensure_params_Inl [of M cp s e s1] show ?thesis
    by (simp add: set_temporary_temperature_def final_state_def cache_complete_def Let_def)
next
  case (Inr y)
  obtain u s1 where y: "y = (u, s1)" by (cases y)
  with Inr ensure_params_Inr [of M cp s u s1] assms obtain ps where
    ps: "params s1 = Some ps" "dom ps = {1..16}" by auto
  then have c: "cache_complete s1" by (simp add: cache_complete_def)
  have k: "\<And>t. params t = params s1 \<Longrightarrow> cache_complete t"
    using c by (simp add: cache_complete_def)
  from Inr y ps show ?thesis
    by (auto simp: set_temporary_temperature_def final_state_def Let_def c
        split: sum.splits prod.splits option.splits
        dest!: async_read_Inr async_read_Inl async_write_Inr async_write_Inl
        intro!: k)
qed

lemma set_temporary_temperature_lookup:
  assumes "cache_complete s" and "pos \<in> {1..16}"
  shows "raised (set_temporary_temperature M cp add_minutes now pos temperature duration s)
           \<notin> {Some KeyError, Some TypeError}"
proof (cases "ensure_params M cp s")
  case (Inl x)
  obtain e s1 where x: "x = (e, s1)" by (cases x)
  with Inl ensure_params_errors [of M cp s e s1] show ?thesis
    by (auto simp: set_temporary_temperature_def raised_def Let_def)
next
  case (Inr y)
  obtain u s1 where y: "y = (u, s1)" by (cases y)
  with Inr ensure_params_Inr [of M cp s u s1] assms obtain ps where
    ps: "params s1 = Some ps" "dom ps = {1..16}" by auto
  with assms(2) obtain p where p: "ps pos = Some p" by blast
  from Inr y ps p show ?thesis
    by (auto simp: set_temporary_temperature_def raised_def Let_def
        async_read_no_raise async_write_no_raise
        split: sum.splits prod.splits
        dest: registers_bytes_errors set_temporary_temperature_data_errors)
qed

lemma get_current_temperatures_cache:
  assumes "cache_complete s"
  shows "cache_complete (final_state (get_current_temperatures M cp s))"
proof -
  obtain r s1 where r: "async_read_holding_registers M (address s) 0x60 16 s = Inr (r, s1)"
    using async_read_returns by blast
  from async_read_Inr [OF r] assms have c1: "cache_complete s1"
    by (simp add: cache_complete_def)
  from ensure_params_complete [OF c1, of M cp]
  have c2: "cache_complete (final_state (ensure_params M cp s1))" .
  from r c1 c2 show ?thesis
    by (auto simp: get_current_temperatures_def final_state_def
        split: sum.splits prod.splits option.splits)
qed

lemma get_current_temperatures_lookup:
  assumes "cache_complete s"
  shows "raised (get_current_temperatures M cp s) \<notin> {Some KeyError, Some TypeError}"
proof -
  obtain r s1 where r: "async_read_holding_registers M (address s) 0x60 16 s = Inr (r, s1)"
    using async_read_returns by blast
  from async_read_Inr [OF r] assms have c1: "cache_complete s1"
    by (simp add: cache_complete_def)
  show ?thesis
  proof (cases "registers_bytes r")
    case (Inl e)
    with r registers_bytes_errors [OF Inl] show ?thesis
      by (auto simp: get_current_temperatures_def raised_def)
  next
    case (Inr data)
    show ?thesis
    proof (cases "ensure_params M cp s1")
      case (Inl x)
      obtain e s2 where x: "x = (e, s2)" by (cases x)
      with Inl ensure_params_errors [of M cp s1 e s2] r Inr show ?thesis
        by (auto simp: get_current_temperatures_def raised_def)
    next
      case (Inr y)
      obtain u s2 where y: "y = (u, s2)" by (cases y)
      with Inr ensure_params_Inr [of M cp s1 u s2] c1 obtain ps where
        ps: "params s2 = Some ps" "dom ps = {1..16}" by auto
      show ?thesis
      proof (cases "length data = 16")
        case True
        from current_loop_total [OF True, of "[1..16]" ps Map.empty] ps(2)
        obtain res1 where "current_loop data ps [1..16] Map.empty = Inr res1" by auto
        with r \<open>registers_bytes r = Inr data\<close> Inr y ps True show ?thesis
          by (simp add: get_current_temperatures_def raised_def)
      next
        case False
        with r \<open>registers_bytes r = Inr data\<close> Inr y ps show ?thesis
          by (simp add: get_current_temperatures_def raised_def)
      qed
    qed
  qed
qed

lemma get_required_temperatures_cache:
  assumes "cache_complete s"
  shows "cache_complete (final_state (get_required_temperatures M cp s))"
proof -
  obtain r s1 where r: "async_read_holding_registers M (address s) 0x70 16 s = Inr (r, s1)"
    using async_read_returns by blast
  from async_read_Inr [OF r] assms have c1: "cache_complete s1"
    by (simp add: cache_complete_def)
  from ensure_params_complete [OF c1, of M cp]
  have c2: "cache_complete (final_state (ensure_params M cp s1))" .
  from r c1 c2 show ?thesis
    by (auto simp: get_required_temperatures_def final_state_def
        split: sum.splits prod.splits option.splits)
qed

lemma get_required_temperatures_lookup:
  assumes "cache_complete s"
  shows "raised (get_required_temperatures M cp s) \<notin> {Some KeyError, Some TypeError}"
proof -
  obtain r s1 where r: "async_read_holding_registers M (address s) 0x70 16 s = Inr (r, s1)"
    using async_read_returns by blast
  from async_read_Inr [OF r] assms have c1: "cache_complete s1"
    by (simp add: cache_complete_def)
  show ?thesis
  proof (cases "registers_bytes r")
    case (Inl e)
    with r registers_bytes_errors [OF Inl] show ?thesis
      by (auto simp: get_required_temperatures_def raised_def)
  next
    case (Inr data)
    show ?thesis
    proof (cases "ensure_params M cp s1")
      case (Inl x)
      obtain e s2 where x: "x = (e, s2)" by (cases x)
      with Inl ensure_params_errors [of M cp s1 e s2] r Inr show ?thesis
        by (auto simp: get_required_temperatures_def raised_def)
    next
      case (Inr y)
      obtain u s2 where y: "y = (u, s2)" by (cases y)
      with Inr ensure_params_Inr [of M cp s1 u s2] c1 obtain ps where
        ps: "params s2 = Some ps" "dom ps = {1..16}" by auto
      show ?thesis
      proof (cases "length data = 16")
        case True
        from required_loop_total [OF True, of "[1..16]" ps Map.empty] ps(2)
        obtain res1 where "required_loop data ps [1..16] Map.empty = Inr res1" by auto
        with r \<open>registers_bytes r = Inr data\<close> Inr y ps True show ?thesis
          by (simp add: get_required_temperatures_def raised_def)
      next
        case False
        with r \<open>registers_bytes r = Inr data\<close> Inr y ps show ?thesis
          by (simp add: get_required_temperatures_def raised_def)
      qed
    qed
  qed
qed

lemma get_parameters_cache:
  assumes "cache_complete s"
  shows "cache_complete (final_state (get_parameters M cp s))"
  using ensure_params_complete [OF assms, of M cp]
  by (auto simp: get_parameters_def final_state_def split: sum.splits prod.splits option.splits)

lemma set_mode_cache:
  "cache_complete s \<Longrightarrow> cache_complete (final_state (set_mode M pos auto s))"
  using set_mode_params [of M pos auto s] by (simp add: cache_complete_def)

lemma get_parameters_not_None: "get_parameters M cp s \<noteq> Inr (None, s1)"
  using get_parameters_Inr [of M cp s None s1] by auto

lemma kept_set_temporary_temperature:
  assumes "params s = Some ps"
  shows "params (final_state (set_temporary_temperature M cp add_minutes now pos temperature
            duration s)) = Some ps"
  using assms
  by (auto simp: set_temporary_temperature_def final_state_def Let_def ensure_params_def
      split: sum.splits prod.splits option.splits
      dest!: async_read_Inr async_read_Inl async_write_Inr async_write_Inl)

lemma kept_get_current_temperatures:
  assumes "params s = Some ps"
  shows "params (final_state (get_current_temperatures M cp s)) = Some ps"
  using assms
  by (auto simp: get_current_temperatures_def final_state_def ensure_params_def
      split: sum.splits prod.splits option.splits if_splits
      dest!: async_read_Inr async_read_Inl)

lemma kept_get_required_temperatures:
  assumes "params s = Some ps"
  shows "params (final_state (get_required_temperatures M cp s)) = Some ps"
  using assms
  by (auto simp: get_required_temperatures_def final_state_def ensure_params_def
      split: sum.splits prod.splits option.splits if_splits
      dest!: async_read_Inr async_read_Inl)

lemma kept_get_parameters:
  "params s = Some ps \<Longrightarrow> params (final_state (get_parameters M cp s)) = Some ps"
  by (simp add: get_parameters_cached final_state_def)

section \<open>Claims\<close>

text \<open>
  C1. For every 4-byte configuration block \<open>[b0, b1, b2, b3]\<close> the decoding in
  \<^verbatim>\<open>__read_params\<close> succeeds and yields: \<open>used\<close> exactly when the low 3 bits of \<open>b0\<close>
  (its value modulo 8) are nonzero; \<open>shift = r - 64 * (r div 32)\<close> for the low 6 bits \<open>r\<close>
  of \<open>b2\<close> (its value modulo 64), which is \<open>r\<close> below 32 and \<open>r - 64\<close> from 32 on, so that
  raw 0 gives 0, raw 32 gives -32 and raw 63 gives -1; \<open>step\<close> is the high 2 bits of \<open>b2\<close>
  (its value divided by 64) plus 1. The block \<open>[0x01, 0x00, 0x41, 0x00]\<close> decodes to
  used, shift 1, step 2, and for a cached position with these values \<^verbatim>\<open>get_parameters\<close>
  publishes min = (1 + 1) * 2 = 4 and max = (30 + 1) * 2 = 62.

  The decoded values are the ones the loop of \<^verbatim>\<open>__read_params\<close> stores. Over any
  transport: when the configuration read of position \<open>k\<close> answers without error with the
  registers \<open>[b0, b1, b2, b3]\<close>, the low 3 bits of \<open>b0\<close> are not all zero, and the name read
  answers with bytes that decode to \<open>n2\<close> after truncation at the first zero byte, the
  iteration stores at \<open>k\<close> the entry used, name \<open>n2\<close>, and the shift and step above. With
  the registers \<open>[0x01, 0x00, 0x41, 0x00]\<close> the stored entry is used, shift 1, step 2, and
  \<^verbatim>\<open>get_parameters\<close> on the cache holding it publishes min 4 and max 62 for \<open>k\<close>. On the
  scripted run in which position 3 answers with that block, \<^verbatim>\<open>get_parameters\<close> called
  on a fresh object fetches all 16 positions, stores used, \<open>Hall\<close>, shift 1, step 2 at
  position 3 and publishes \<open>Hall\<close>, min 4, max 62 for it.
\<close>

theorem C1_decode_zone_params:
  "read_params_decode [b0, b1, b2, b3] =
     Inr (uint b0 mod 8 \<noteq> 0,
          (let r = uint b2 mod 64 in r - 64 * (r div 32)),
          uint b2 div 64 + 1)
   \<and> (let r = uint b2 mod 64 in r - 64 * (r div 32) = (if r < 32 then r else r - 64))
   \<and> read_params_decode [b0, b1, 0, b3] = Inr (uint b0 mod 8 \<noteq> 0, 0, 1)
   \<and> read_params_decode [b0, b1, 32, b3] = Inr (uint b0 mod 8 \<noteq> 0, - 32, 1)
   \<and> read_params_decode [b0, b1, 63, b3] = Inr (uint b0 mod 8 \<noteq> 0, - 1, 1)
   \<and> read_params_decode [0x01, 0x00, 0x41, 0x00] = Inr (True, 1, 2)
   \<and> (\<exists>z. get_parameters M cp
             (s\<lparr>params := Some (ps(pos \<mapsto> \<lparr>used = True, name = n, shift = 1, step = 2\<rparr>))\<rparr>)
           = Inr (Some z,
               s\<lparr>params := Some (ps(pos \<mapsto> \<lparr>used = True, name = n, shift = 1, step = 2\<rparr>))\<rparr>)
         \<and> z pos = Some \<lparr>info_name = n, info_min = 4, info_max = 62\<rparr>)
   \<and> (async_read_holding_registers M (address t) (0x1100 + (k - 1) * 0x10) 4 t = Inr (pr, t1)
        \<and> \<not> isError pr
        \<and> registers pr = Some [uint b0, uint b1, uint b2, uint b3]
        \<and> uint b0 mod 8 \<noteq> 0
        \<and> async_read_holding_registers M (address t1) (0x1030 + (k - 1) * 8) 8 t1 = Inr (nr, t2)
        \<and> registers_bytes nr = Inr nm
        \<and> decode_1250 cp (if bytes_find nm 0 \<noteq> - 1 then take (nat (bytes_find nm 0)) nm
                           else nm) = Inr n2
      \<longrightarrow> read_params_pos M cp k res t =
            Inr (res(k \<mapsto> \<lparr>used = True, name = n2,
                              shift = (let r = uint b2 mod 64 in r - 64 * (r div 32)),
                              step = uint b2 div 64 + 1\<rparr>), t2))
   \<and> (async_read_holding_registers M (address t) (0x1100 + (k - 1) * 0x10) 4 t = Inr (pr, t1)
        \<and> \<not> isError pr
        \<and> registers pr = Some [0x01, 0x00, 0x41, 0x00]
        \<and> async_read_holding_registers M (address t1) (0x1030 + (k - 1) * 8) 8 t1 = Inr (nr, t2)
        \<and> registers_bytes nr = Inr nm
        \<and> decode_1250 cp (if bytes_find nm 0 \<noteq> - 1 then take (nat (bytes_find nm 0)) nm
                           else nm) = Inr n2
      \<longrightarrow> read_params_pos M cp k res t =
            Inr (res(k \<mapsto> \<lparr>used = True, name = n2, shift = 1, step = 2\<rparr>), t2)
          \<and> (\<exists>z. get_parameters M cp
                     (t2\<lparr>params := Some (res(k \<mapsto> \<lparr>used = True, name = n2, shift = 1, step = 2\<rparr>))\<rparr>)
                   = Inr (Some z,
                       t2\<lparr>params := Some (res(k \<mapsto> \<lparr>used = True, name = n2, shift = 1, step = 2\<rparr>))\<rparr>)
                 \<and> z k = Some \<lparr>info_name = n2, info_min = 4, info_max = 62\<rparr>))
   \<and> (\<exists>z s'. get_parameters script_modbus ascii_table (init demo_script 1) = Inr (Some z, s')
        \<and> z 3 = Some \<lparr>info_name = ''Hall'', info_min = 4, info_max = 62\<rparr>
        \<and> (\<exists>ps. params s' = Some ps
              \<and> ps 3 = Some \<lparr>used = True, name = ''Hall'', shift = 1, step = 2\<rparr>))"
proof -
  have sign: "let r = uint b2 mod 64 in r - 64 * (r div 32) = (if r < 32 then r else r - 64)"
    unfolding Let_def by (rule sign_correction) simp_all
  have raw: "read_params_decode [b0, b1, 0, b3] = Inr (uint b0 mod 8 \<noteq> 0, 0, 1)"
    "read_params_decode [b0, b1, 32, b3] = Inr (uint b0 mod 8 \<noteq> 0, - 32, 1)"
    "read_params_decode [b0, b1, 63, b3] = Inr (uint b0 mod 8 \<noteq> 0, - 1, 1)"
    "read_params_decode [0x01, 0x00, 0x41, 0x00] = Inr (True, 1, 2)"
    by (simp_all add: read_params_decode_4)
  have pub: "\<exists>z. get_parameters M cp
             (s\<lparr>params := Some (ps(pos \<mapsto> \<lparr>used = True, name = n, shift = 1, step = 2\<rparr>))\<rparr>)
           = Inr (Some z,
               s\<lparr>params := Some (ps(pos \<mapsto> \<lparr>used = True, name = n, shift = 1, step = 2\<rparr>))\<rparr>)
         \<and> z pos = Some \<lparr>info_name = n, info_min = 4, info_max = 62\<rparr>"
    by (simp add: get_parameters_cached)
  have gen: "async_read_holding_registers M (address t) (0x1100 + (k - 1) * 0x10) 4 t = Inr (pr, t1)
        \<and> \<not> isError pr
        \<and> registers pr = Some [uint b0, uint b1, uint b2, uint b3]
        \<and> uint b0 mod 8 \<noteq> 0
        \<and> async_read_holding_registers M (address t1) (0x1030 + (k - 1) * 8) 8 t1 = Inr (nr, t2)
        \<and> registers_bytes nr = Inr nm
        \<and> decode_1250 cp (if bytes_find nm 0 \<noteq> - 1 then take (nat (bytes_find nm 0)) nm
                           else nm) = Inr n2
      \<longrightarrow> read_params_pos M cp k res t =
            Inr (res(k \<mapsto> \<lparr>used = True, name = n2,
                              shift = (let r = uint b2 mod 64 in r - 64 * (r div 32)),
                              step = uint b2 div 64 + 1\<rparr>), t2)"
    using read_params_pos_block [of M t k pr t1 b0 b1 b2 b3 nr t2 nm cp n2 res] by blast
  have ex: "async_read_holding_registers M (address t) (0x1100 + (k - 1) * 0x10) 4 t = Inr (pr, t1)
        \<and> \<not> isError pr
        \<and> registers pr = Some [0x01, 0x00, 0x41, 0x00]
        \<and> async_read_holding_registers M (address t1) (0x1030 + (k - 1) * 8) 8 t1 = Inr (nr, t2)
        \<and> registers_bytes nr = Inr nm
        \<and> decode_1250 cp (if bytes_find nm 0 \<noteq> - 1 then take (nat (bytes_find nm 0)) nm
                           else nm) = Inr n2
      \<longrightarrow> read_params_pos M cp k res t =
            Inr (res(k \<mapsto> \<lparr>used = True, name = n2, shift = 1, step = 2\<rparr>), t2)
          \<and> (\<exists>z. get_parameters M cp
                     (t2\<lparr>params := Some (res(k \<mapsto> \<lparr>used = True, name = n2, shift = 1, step = 2\<rparr>))\<rparr>)
                   = Inr (Some z,
                       t2\<lparr>params := Some (res(k \<mapsto> \<lparr>used = True, name = n2, shift = 1, step = 2\<rparr>))\<rparr>)
                 \<and> z k = Some \<lparr>info_name = n2, info_min = 4, info_max = 62\<rparr>)"
    using read_params_pos_block [of M t k pr t1 "0x01" "0x00" "0x41" "0x00" nr t2 nm cp n2 res]
    by (simp add: get_parameters_cached)
  have run: "\<exists>z s'. get_parameters script_modbus ascii_table (init demo_script 1) = Inr (Some z, s')
        \<and> z 3 = Some \<lparr>info_name = ''Hall'', info_min = 4, info_max = 62\<rparr>
        \<and> (\<exists>ps. params s' = Some ps
              \<and> ps 3 = Some \<lparr>used = True, name = ''Hall'', shift = 1, step = 2\<rparr>)"
    by (simp add: get_parameters_def ensure_params_def eval_defs demo_script_def)
  from read_params_decode_4 sign raw pub gen ex run show ?thesis
    by (intro conjI)
qed

theorem C1_decode_zone_params_witness:
  "read_params_decode [0x81, 0xFF, 0xBF, 0x00] = Inr (True, - 1, 3)
   \<and> read_params_pos script_modbus ascii_table 1 Map.empty
        (init [ok_response [0x81, 0xFF, 0xBF, 0x00], ok_response [75, 0, 0, 0, 0, 0, 0, 0]] 1)
      = Inr ([1 \<mapsto> \<lparr>used = True, name = ''K'', shift = - 1, step = 3\<rparr>],
             \<lparr>client = [], address = 1, params = None, slept = 0,
              trace = [ReadHolding 0x1100 4 (Some 1), ReadHolding 0x1030 8 (Some 1)]\<rparr>)"
  using C1_decode_zone_params [where ?b0.0 = "0x81" and ?b1.0 = "0xFF" and ?b2.0 = "0xBF"
      and ?b3.0 = "0x00" and M = script_modbus and cp = ascii_table and k = 1
      and res = Map.empty
      and t = "init [ok_response [0x81, 0xFF, 0xBF, 0x00], ok_response [75, 0, 0, 0, 0, 0, 0, 0]] 1"]
  by (simp add: eval_defs)

text \<open>
  C2. The 5-byte payload of \<^verbatim>\<open>set_temporary_temperature\<close>. For every first byte \<open>d0\<close>
  read back, every temperature and position entry, and every start and end time with
  calendar fields in range, the bytes built are: the top 2 bits of \<open>d0\<close> (\<open>d0 AND 0xC0\<close>)
  OR'd with the raw level, which is below 32 (the sum the code computes equals this OR);
  then the start stamp and the end stamp, each as 2 bytes, high byte first. A stamp is
  \<open>minute div 15 + hour * 4 + day * 128 + month * 4096\<close>; 14:32 on day 10 of month 3 packs
  to 13626. The method writes exactly these bytes at \<open>0x1100 + (pos - 1) * 0x10 + 3\<close>: when
  the cache has an entry for \<open>pos\<close> with a nonzero step and the 1-register read answers
  without error with bytes starting with \<open>d0\<close>, the call is the write of that payload,
  returning whether the write answered without error. On a concrete run (position 3 with
  shift 1 and step 2, temperature 21, byte \<open>0xA5\<close> read, 14:32 on day 10 of month 3, 120
  minutes) the registers written are \<open>0x89, 0x35, 0x3A, 0x35, 0x42\<close>.
\<close>

theorem C2_temporary_payload:
  "(valid_datetime ts \<and> valid_datetime te \<longrightarrow>
      set_temporary_temperature_data (d0 # rest) (set_temporary_temperature_temp t p)
          (get_toy ts) (get_toy te)
        = Inr [(d0 AND 0xC0) OR word_of_int (set_temporary_temperature_temp t p),
               word_of_int (get_toy ts div 256), word_of_int (get_toy ts mod 256),
               word_of_int (get_toy te div 256), word_of_int (get_toy te mod 256)]
      \<and> uint (word_of_int (get_toy ts div 256) :: byte) * 256
          + uint (word_of_int (get_toy ts mod 256) :: byte) = get_toy ts
      \<and> uint (word_of_int (get_toy te div 256) :: byte) * 256
          + uint (word_of_int (get_toy te mod 256) :: byte) = get_toy te)
   \<and> 0 \<le> set_temporary_temperature_temp t p \<and> set_temporary_temperature_temp t p < 32
   \<and> uint ((d0 AND 0xC0) OR word_of_int (set_temporary_temperature_temp t p) :: byte)
        = (uint d0 AND 0xC0) + set_temporary_temperature_temp t p
   \<and> get_toy tm = minute tm div 15 + hour tm * 4 + day tm * 128 + month tm * 4096
   \<and> get_toy \<lparr>month = 3, day = 10, hour = 14, minute = 32\<rparr> = 13626
   \<and> (ensure_params M cp s = Inr (u, s1) \<and> params s1 = Some ps \<and> ps pos = Some p
        \<and> step p \<noteq> 0
        \<and> async_read_holding_registers M (address s1) (0x1100 + (pos - 1) * 0x10 + 0x03) 1 s1
             = Inr (response, s2)
        \<and> \<not> isError response \<and> registers_bytes response = Inr (d0 # rest)
        \<and> valid_datetime (add_minutes now (- 0))
        \<and> valid_datetime (add_minutes now (duration + 1))
      \<longrightarrow> set_temporary_temperature M cp add_minutes now pos t duration s =
           (case async_write_register M (address s2) (0x1100 + (pos - 1) * 0x10 + 0x03)
                   [(d0 AND 0xC0) OR word_of_int (set_temporary_temperature_temp t p),
                    word_of_int (get_toy (add_minutes now (- 0)) div 256),
                    word_of_int (get_toy (add_minutes now (- 0)) mod 256),
                    word_of_int (get_toy (add_minutes now (duration + 1)) div 256),
                    word_of_int (get_toy (add_minutes now (duration + 1)) mod 256)] s2 of
              Inl x \<Rightarrow> Inl x
            | Inr (response1, s3) \<Rightarrow> Inr (\<not> isError response1, s3)))
   \<and> set_temporary_temperature script_modbus ascii_table same_day_add
         \<lparr>month = 3, day = 10, hour = 14, minute = 32\<rparr> 3 21 120 demo_state
       = Inr (True, demo_state\<lparr>client := [],
            trace := [ReadHolding 0x1123 1 (Some 1),
                      WriteRegisters 0x1123 [0x89, 0x35, 0x3A, 0x35, 0x42] (Some 1)]\<rparr>)"
proof -
  have payload: "valid_datetime ts \<and> valid_datetime te \<longrightarrow>
      set_temporary_temperature_data (d0 # rest) (set_temporary_temperature_temp t p)
          (get_toy ts) (get_toy te)
        = Inr [(d0 AND 0xC0) OR word_of_int (set_temporary_temperature_temp t p),
               word_of_int (get_toy ts div 256), word_of_int (get_toy ts mod 256),
               word_of_int (get_toy te div 256), word_of_int (get_toy te mod 256)]
      \<and> uint (word_of_int (get_toy ts div 256) :: byte) * 256
          + uint (word_of_int (get_toy ts mod 256) :: byte) = get_toy ts
      \<and> uint (word_of_int (get_toy te div 256) :: byte) * 256
          + uint (word_of_int (get_toy te mod 256) :: byte) = get_toy te"
    using get_toy_range [of ts] get_toy_range [of te]
      data_ok [of "get_toy ts" "get_toy te" d0 rest t p]
      big_endian_value [of "get_toy ts"] big_endian_value [of "get_toy te"]
    by blast
  have level: "0 \<le> set_temporary_temperature_temp t p"
    "set_temporary_temperature_temp t p < 32"
    by (simp_all add: tmp_mod)
  have first: "uint ((d0 AND 0xC0) OR word_of_int (set_temporary_temperature_temp t p) :: byte)
        = (uint d0 AND 0xC0) + set_temporary_temperature_temp t p"
    unfolding set_temporary_temperature_temp_def by (rule first_byte_uint)
  have toy: "get_toy tm = minute tm div 15 + hour tm * 4 + day tm * 128 + month tm * 4096"
    by (simp add: get_toy_def)
  have ex: "get_toy \<lparr>month = 3, day = 10, hour = 14, minute = 32\<rparr> = 13626"
    by (simp add: get_toy_def)
  have facade: "ensure_params M cp s = Inr (u, s1) \<and> params s1 = Some ps \<and> ps pos = Some p
        \<and> step p \<noteq> 0
        \<and> async_read_holding_registers M (address s1) (0x1100 + (pos - 1) * 0x10 + 0x03) 1 s1
             = Inr (response, s2)
        \<and> \<not> isError response \<and> registers_bytes response = Inr (d0 # rest)
        \<and> valid_datetime (add_minutes now (- 0))
        \<and> valid_datetime (add_minutes now (duration + 1))
      \<longrightarrow> set_temporary_temperature M cp add_minutes now pos t duration s =
           (case async_write_register M (address s2) (0x1100 + (pos - 1) * 0x10 + 0x03)
                   [(d0 AND 0xC0) OR word_of_int (set_temporary_temperature_temp t p),
                    word_of_int (get_toy (add_minutes now (- 0)) div 256),
                    word_of_int (get_toy (add_minutes now (- 0)) mod 256),
                    word_of_int (get_toy (add_minutes now (duration + 1)) div 256),
                    word_of_int (get_toy (add_minutes now (duration + 1)) mod 256)] s2 of
              Inl x \<Rightarrow> Inl x
            | Inr (response1, s3) \<Rightarrow> Inr (\<not> isError response1, s3))"
  proof (intro impI, elim conjE)
    assume a: "ensure_params M cp s = Inr (u, s1)" "params s1 = Some ps" "ps pos = Some p"
      "step p \<noteq> 0"
      "async_read_holding_registers M (address s1) (0x1100 + (pos - 1) * 0x10 + 0x03) 1 s1
             = Inr (response, s2)"
      "\<not> isError response" "registers_bytes response = Inr (d0 # rest)"
      and v: "valid_datetime (add_minutes now (- 0))"
        "valid_datetime (add_minutes now (duration + 1))"
    from v get_toy_range [of "add_minutes now (- 0)"]
      get_toy_range [of "add_minutes now (duration + 1)"]
    have d: "set_temporary_temperature_data (d0 # rest) (set_temporary_temperature_temp t p)
           (get_toy (add_minutes now (- 0))) (get_toy (add_minutes now (duration + 1)))
        = Inr [(d0 AND 0xC0) OR word_of_int (set_temporary_temperature_temp t p),
                    word_of_int (get_toy (add_minutes now (- 0)) div 256),
                    word_of_int (get_toy (add_minutes now (- 0)) mod 256),
                    word_of_int (get_toy (add_minutes now (duration + 1)) div 256),
                    word_of_int (get_toy (add_minutes now (duration + 1)) mod 256)]"
      by (intro data_ok) simp_all
    show "set_temporary_temperature M cp add_minutes now pos t duration s =
           (case async_write_register M (address s2) (0x1100 + (pos - 1) * 0x10 + 0x03)
                   [(d0 AND 0xC0) OR word_of_int (set_temporary_temperature_temp t p),
                    word_of_int (get_toy (add_minutes now (- 0)) div 256),
                    word_of_int (get_toy (add_minutes now (- 0)) mod 256),
                    word_of_int (get_toy (add_minutes now (duration + 1)) div 256),
                    word_of_int (get_toy (add_minutes now (duration + 1)) mod 256)] s2 of
              Inl x \<Rightarrow> Inl x
            | Inr (response1, s3) \<Rightarrow> Inr (\<not> isError response1, s3))"
      by (rule set_temporary_temperature_writes
          [where add_minutes = add_minutes and now = now and duration = duration, OF a d])
  qed
  have run: "set_temporary_temperature script_modbus ascii_table same_day_add
         \<lparr>month = 3, day = 10, hour = 14, minute = 32\<rparr> 3 21 120 demo_state
       = Inr (True, demo_state\<lparr>client := [],
            trace := [ReadHolding 0x1123 1 (Some 1),
                      WriteRegisters 0x1123 [0x89, 0x35, 0x3A, 0x35, 0x42] (Some 1)]\<rparr>)"
    by (simp add: facade_eval_defs demo_state_def)
  from payload level first toy ex facade run show ?thesis
    by (intro conjI)
qed

theorem C2_temporary_payload_witness:
  "valid_datetime \<lparr>month = 12, day = 31, hour = 23, minute = 59\<rparr>
   \<and> valid_datetime \<lparr>month = 1, day = 1, hour = 0, minute = 0\<rparr>
   \<and> set_temporary_temperature_data [0xFF, 0x12]
        (set_temporary_temperature_temp 7.5 \<lparr>used = True, name = ''A'', shift = - 2, step = 3\<rparr>)
        (get_toy \<lparr>month = 12, day = 31, hour = 23, minute = 59\<rparr>)
        (get_toy \<lparr>month = 1, day = 1, hour = 0, minute = 0\<rparr>)
      = Inr [0xC4, 0xCF, 0xDF, 0x10, 0x80]"
  using C2_temporary_payload [where ts = "\<lparr>month = 12, day = 31, hour = 23, minute = 59\<rparr>"
      and te = "\<lparr>month = 1, day = 1, hour = 0, minute = 0\<rparr>" and ?d0.0 = "0xFF"
      and rest = "[0x12]" and t = "7.5"
      and p = "\<lparr>used = True, name = ''A'', shift = - 2, step = 3\<rparr>", THEN conjunct1]
  by (simp add: valid_datetime_def get_toy_def set_temporary_temperature_temp_def)

text \<open>
  C3. The raw level written by \<^verbatim>\<open>set_temporary_temperature\<close> (line 71) followed by the
  decoding of \<^verbatim>\<open>get_current_temperatures\<close> (line 103) returns the temperature, for every
  position entry with a nonzero step and every temperature of the form
  \<open>(b + shift) * step\<close> with \<open>0 \<le> b < 32\<close>; in particular for every multiple \<open>t\<close> of a
  positive step with \<open>min \<le> t \<le> max\<close>, where \<open>min = (1 + shift) * step\<close> and
  \<open>max = (30 + shift) * step\<close>. For any temperature at all the level is
  \<open>(floor t div step - shift) mod 32\<close>, a value from 0 to 31: nothing is clamped or rejected,
  and temperatures 32 steps apart get the same level. With shift 1 and step 2 (min 4,
  max 62) the temperature 66 is written as level 0, which reads back as 2, and the
  temperature 0 as level 31, which reads back as 64. The loop of
  \<^verbatim>\<open>get_current_temperatures\<close> stores this decoding of the byte of each used position.
  On scripted runs with position 3 cached (shift 1, step 2): the temperature 22 is
  written as level 10 in the first byte \<open>0x8A\<close>, and a block with 10 at position 3 is
  read back as 22; the temperature 66 is written, as level 0, in the first byte \<open>0x80\<close>,
  and the call returns true.
\<close>

theorem C3_level_round_trip:
  "(step p \<noteq> 0 \<and> 0 \<le> b \<and> b < 32 \<longrightarrow>
      set_temporary_temperature_temp (of_int ((b + shift p) * step p)) p = b
      \<and> current_temp (set_temporary_temperature_temp (of_int ((b + shift p) * step p)) p) p
          = (b + shift p) * step p)
   \<and> (0 < step p \<and> (1 + shift p) * step p \<le> t \<and> t \<le> (30 + shift p) * step p
        \<and> step p dvd t \<longrightarrow>
      current_temp (set_temporary_temperature_temp (of_int t) p) p = t)
   \<and> set_temporary_temperature_temp x p = (\<lfloor>x\<rfloor> div step p - shift p) mod 32
   \<and> 0 \<le> set_temporary_temperature_temp x p \<and> set_temporary_temperature_temp x p < 32
   \<and> (step p \<noteq> 0 \<longrightarrow>
      set_temporary_temperature_temp (of_int (t + 32 * step p)) p
        = set_temporary_temperature_temp (of_int t) p)
   \<and> set_temporary_temperature_temp 66 \<lparr>used = True, name = ''Hall'', shift = 1, step = 2\<rparr> = 0
   \<and> current_temp 0 \<lparr>used = True, name = ''Hall'', shift = 1, step = 2\<rparr> = 2
   \<and> set_temporary_temperature_temp 0 \<lparr>used = True, name = ''Hall'', shift = 1, step = 2\<rparr> = 31
   \<and> current_temp 31 \<lparr>used = True, name = ''Hall'', shift = 1, step = 2\<rparr> = 64
   \<and> (current_loop data ps [1..16] Map.empty = Inr res \<and> pos \<in> {1..16} \<and> ps pos = Some q
        \<and> used q
      \<longrightarrow> res pos = Some (current_temp (uint (data ! nat (pos - 1))) q))
   \<and> set_temporary_temperature script_modbus ascii_table same_day_add
         \<lparr>month = 3, day = 10, hour = 14, minute = 32\<rparr> 3 22 120 demo_state
       = Inr (True, demo_state\<lparr>client := [],
            trace := [ReadHolding 0x1123 1 (Some 1),
                      WriteRegisters 0x1123 [0x8A, 0x35, 0x3A, 0x35, 0x42] (Some 1)]\<rparr>)
   \<and> returned (get_current_temperatures script_modbus ascii_table
         (init (ok_response [0, 0, 10, 0, 0, 0, 0, 0, 0, 0, 0, 0, 0, 0, 0, 0] # demo_script) 1))
       = Some (Some [3 \<mapsto> 22])
   \<and> set_temporary_temperature script_modbus ascii_table same_day_add
         \<lparr>month = 3, day = 10, hour = 14, minute = 32\<rparr> 3 66 120 demo_state
       = Inr (True, demo_state\<lparr>client := [],
            trace := [ReadHolding 0x1123 1 (Some 1),
                      WriteRegisters 0x1123 [0x80, 0x35, 0x3A, 0x35, 0x42] (Some 1)]\<rparr>)"
proof -
  have rt: "step p \<noteq> 0 \<and> 0 \<le> b \<and> b < 32 \<longrightarrow>
      set_temporary_temperature_temp (of_int ((b + shift p) * step p)) p = b
      \<and> current_temp (set_temporary_temperature_temp (of_int ((b + shift p) * step p)) p) p
          = (b + shift p) * step p"
    using round_trip_level [of p b] by (simp add: current_temp_def)
  have rng: "0 < step p \<and> (1 + shift p) * step p \<le> t \<and> t \<le> (30 + shift p) * step p
        \<and> step p dvd t \<longrightarrow>
      current_temp (set_temporary_temperature_temp (of_int t) p) p = t"
  proof (intro impI, elim conjE)
    assume a: "0 < step p" "(1 + shift p) * step p \<le> t" "t \<le> (30 + shift p) * step p"
      "step p dvd t"
    from in_range_level [OF a] obtain c where
      c: "1 \<le> c" "c \<le> 30" "t = (c + shift p) * step p" by blast
    from a(1) c(1,2) have "set_temporary_temperature_temp (of_int ((c + shift p) * step p)) p = c"
      by (intro round_trip_level) simp_all
    with c(3) show "current_temp (set_temporary_temperature_temp (of_int t) p) p = t"
      by (simp add: current_temp_def)
  qed
  have lvl: "set_temporary_temperature_temp x p = (\<lfloor>x\<rfloor> div step p - shift p) mod 32"
    by (rule tmp_mod)
  have bnd: "0 \<le> set_temporary_temperature_temp x p" "set_temporary_temperature_temp x p < 32"
    by (simp_all add: tmp_mod)
  have wrap: "step p \<noteq> 0 \<longrightarrow>
      set_temporary_temperature_temp (of_int (t + 32 * step p)) p
        = set_temporary_temperature_temp (of_int t) p"
    using wrap_level [of p t] by blast
  have ex: "set_temporary_temperature_temp 66 \<lparr>used = True, name = ''Hall'', shift = 1, step = 2\<rparr> = 0"
    "current_temp 0 \<lparr>used = True, name = ''Hall'', shift = 1, step = 2\<rparr> = 2"
    "set_temporary_temperature_temp 0 \<lparr>used = True, name = ''Hall'', shift = 1, step = 2\<rparr> = 31"
    "current_temp 31 \<lparr>used = True, name = ''Hall'', shift = 1, step = 2\<rparr> = 64"
    by (simp_all add: tmp_mod current_temp_def)
  have loop: "current_loop data ps [1..16] Map.empty = Inr res \<and> pos \<in> {1..16}
        \<and> ps pos = Some q \<and> used q
      \<longrightarrow> res pos = Some (current_temp (uint (data ! nat (pos - 1))) q)"
    using current_loop_entry [of data ps "[1..16]" Map.empty res pos q] by simp
  have w22: "set_temporary_temperature script_modbus ascii_table same_day_add
         \<lparr>month = 3, day = 10, hour = 14, minute = 32\<rparr> 3 22 120 demo_state
       = Inr (True, demo_state\<lparr>client := [],
            trace := [ReadHolding 0x1123 1 (Some 1),
                      WriteRegisters 0x1123 [0x8A, 0x35, 0x3A, 0x35, 0x42] (Some 1)]\<rparr>)"
    by (simp add: facade_eval_defs demo_state_def)
  have r22: "returned (get_current_temperatures script_modbus ascii_table
         (init (ok_response [0, 0, 10, 0, 0, 0, 0, 0, 0, 0, 0, 0, 0, 0, 0, 0] # demo_script) 1))
       = Some (Some [3 \<mapsto> 22])"
    by (simp add: get_current_temperatures_def ensure_params_def returned_def eval_defs
        demo_script_def current_temp_def)
  have w66: "set_temporary_temperature script_modbus ascii_table same_day_add
         \<lparr>month = 3, day = 10, hour = 14, minute = 32\<rparr> 3 66 120 demo_state
       = Inr (True, demo_state\<lparr>client := [],
            trace := [ReadHolding 0x1123 1 (Some 1),
                      WriteRegisters 0x1123 [0x80, 0x35, 0x3A, 0x35, 0x42] (Some 1)]\<rparr>)"
    by (simp add: facade_eval_defs demo_state_def)
  from rt rng lvl bnd wrap ex loop w22 r22 w66 show ?thesis
    by (intro conjI)
qed

theorem C3_level_round_trip_witness:
  "step \<lparr>used = True, name = ''Hall'', shift = - 3, step = 4\<rparr> \<noteq> 0 \<and> (0::int) \<le> 17 \<and> (17::int) < 32
   \<and> set_temporary_temperature_temp 56 \<lparr>used = True, name = ''Hall'', shift = - 3, step = 4\<rparr> = 17
   \<and> current_temp 17 \<lparr>used = True, name = ''Hall'', shift = - 3, step = 4\<rparr> = 56"
  using C3_level_round_trip [where p = "\<lparr>used = True, name = ''Hall'', shift = - 3, step = 4\<rparr>"
      and b = 17, THEN conjunct1]
  by (simp add: current_temp_def)

text \<open>
  C4. The bytes written by \<^verbatim>\<open>set_mode\<close> for a 6-byte block \<open>[d0, d1, d2, d3, d4, d5]\<close> read
  back. For automatic mode: \<open>[d0 AND 0xDF, 0x10, 0x80, 0x10, 0x80]\<close>, whatever \<open>d1\<close> to
  \<open>d5\<close> are; bit 5 (\<open>0x20\<close>) of the first byte is clear and every other bit is that of
  \<open>d0\<close>. For manual mode: \<open>[d0 OR 0x20, d1, d2, d3, d4]\<close>; bit 5 of the first byte is set
  and every other bit is that of \<open>d0\<close>. Both results have 5 bytes. The method writes
  exactly these bytes at \<open>0x1100 + (pos - 1) * 0x10 + 3\<close>: when the 6-register read answers
  without error with the bytes \<open>[d0, d1, d2, d3, d4, d5]\<close>, the call is the write of that
  payload, returning whether the write answered without error. On concrete runs with
  the block \<open>E7 01 02 03 04 05\<close> read at position 3, automatic mode writes
  \<open>C7 10 80 10 80\<close> and, with \<open>C7 01 02 03 04 05\<close> read, manual mode writes
  \<open>E7 01 02 03 04\<close>.
\<close>

theorem C4_mode_toggle_bytes:
  "set_mode_data True [d0, d1, d2, d3, d4, d5] = Inr [d0 AND 0xDF, 0x10, 0x80, 0x10, 0x80]
   \<and> set_mode_data False [d0, d1, d2, d3, d4, d5] = Inr [d0 OR 0x20, d1, d2, d3, d4]
   \<and> (bit (d0 AND 0xDF) n \<longleftrightarrow> bit d0 n \<and> n \<noteq> 5)
   \<and> (bit (d0 OR 0x20) n \<longleftrightarrow> bit d0 n \<or> n = 5)
   \<and> (d0 AND 0xDF) AND 0x20 = 0
   \<and> (d0 AND 0xDF) AND 0xDF = d0 AND 0xDF
   \<and> (d0 OR 0x20) AND 0x20 = 0x20
   \<and> (d0 OR 0x20) AND 0xDF = d0 AND 0xDF
   \<and> (async_read_holding_registers M (address s) (0x1100 + (pos - 1) * 0x10 + 0x03) 6 s
          = Inr (response, s1)
        \<and> \<not> isError response
        \<and> registers_bytes response = Inr [d0, d1, d2, d3, d4, d5]
      \<longrightarrow> set_mode M pos auto s =
           (case async_write_register M (address s1) (0x1100 + (pos - 1) * 0x10 + 0x03)
                   (if auto then [d0 AND 0xDF, 0x10, 0x80, 0x10, 0x80]
                    else [d0 OR 0x20, d1, d2, d3, d4]) s1 of
              Inl x \<Rightarrow> Inl x
            | Inr (response1, s2) \<Rightarrow> Inr (\<not> isError response1, s2)))
   \<and> set_mode script_modbus 3 True
         (init [ok_response [0xE7, 0x01, 0x02, 0x03, 0x04, 0x05], ok_response []] 1)
       = Inr (True, \<lparr>client = [], address = 1, params = None, slept = 0,
                     trace = [ReadHolding 0x1123 6 (Some 1),
                              WriteRegisters 0x1123 [0xC7, 0x10, 0x80, 0x10, 0x80] (Some 1)]\<rparr>)
   \<and> set_mode script_modbus 3 False
         (init [ok_response [0xC7, 0x01, 0x02, 0x03, 0x04, 0x05], ok_response []] 1)
       = Inr (True, \<lparr>client = [], address = 1, params = None, slept = 0,
                     trace = [ReadHolding 0x1123 6 (Some 1),
                              WriteRegisters 0x1123 [0xE7, 0x01, 0x02, 0x03, 0x04] (Some 1)]\<rparr>)"
proof -
  have a: "set_mode_data True [d0, d1, d2, d3, d4, d5] = Inr [d0 AND 0xDF, 0x10, 0x80, 0x10, 0x80]"
    by (rule set_mode_data_auto)
  have m: "set_mode_data False [d0, d1, d2, d3, d4, d5] = Inr [d0 OR 0x20, d1, d2, d3, d4]"
    by (rule set_mode_data_manual)
  have bits: "bit (d0 AND 0xDF) n \<longleftrightarrow> bit d0 n \<and> n \<noteq> 5"
    "bit (d0 OR 0x20) n \<longleftrightarrow> bit d0 n \<or> n = 5"
    by (rule bit_DF, rule bit_20)
  have masks: "(d0 AND 0xDF) AND 0x20 = 0" "(d0 AND 0xDF) AND 0xDF = d0 AND 0xDF"
    "(d0 OR 0x20) AND 0x20 = 0x20" "(d0 OR 0x20) AND 0xDF = d0 AND 0xDF"
    by (rule and_DF, rule and_DF', rule or_20, rule or_20')
  have facade: "async_read_holding_registers M (address s) (0x1100 + (pos - 1) * 0x10 + 0x03) 6 s
          = Inr (response, s1)
        \<and> \<not> isError response
        \<and> registers_bytes response = Inr [d0, d1, d2, d3, d4, d5]
      \<longrightarrow> set_mode M pos auto s =
           (case async_write_register M (address s1) (0x1100 + (pos - 1) * 0x10 + 0x03)
                   (if auto then [d0 AND 0xDF, 0x10, 0x80, 0x10, 0x80]
                    else [d0 OR 0x20, d1, d2, d3, d4]) s1 of
              Inl x \<Rightarrow> Inl x
            | Inr (response1, s2) \<Rightarrow> Inr (\<not> isError response1, s2))"
  proof (intro impI, elim conjE)
    assume r: "async_read_holding_registers M (address s) (0x1100 + (pos - 1) * 0x10 + 0x03) 6 s
          = Inr (response, s1)" "\<not> isError response"
      "registers_bytes response = Inr [d0, d1, d2, d3, d4, d5]"
    have d: "set_mode_data auto [d0, d1, d2, d3, d4, d5]
        = Inr (if auto then [d0 AND 0xDF, 0x10, 0x80, 0x10, 0x80]
               else [d0 OR 0x20, d1, d2, d3, d4])"
      using a m by simp
    show "set_mode M pos auto s =
           (case async_write_register M (address s1) (0x1100 + (pos - 1) * 0x10 + 0x03)
                   (if auto then [d0 AND 0xDF, 0x10, 0x80, 0x10, 0x80]
                    else [d0 OR 0x20, d1, d2, d3, d4]) s1 of
              Inl x \<Rightarrow> Inl x
            | Inr (response1, s2) \<Rightarrow> Inr (\<not> isError response1, s2))"
      by (rule set_mode_writes [OF r d])
  qed
  have run: "set_mode script_modbus 3 True
         (init [ok_response [0xE7, 0x01, 0x02, 0x03, 0x04, 0x05], ok_response []] 1)
       = Inr (True, \<lparr>client = [], address = 1, params = None, slept = 0,
                     trace = [ReadHolding 0x1123 6 (Some 1),
                              WriteRegisters 0x1123 [0xC7, 0x10, 0x80, 0x10, 0x80] (Some 1)]\<rparr>)"
    "set_mode script_modbus 3 False
         (init [ok_response [0xC7, 0x01, 0x02, 0x03, 0x04, 0x05], ok_response []] 1)
       = Inr (True, \<lparr>client = [], address = 1, params = None, slept = 0,
                     trace = [ReadHolding 0x1123 6 (Some 1),
                              WriteRegisters 0x1123 [0xE7, 0x01, 0x02, 0x03, 0x04] (Some 1)]\<rparr>)"
    by (simp_all add: facade_eval_defs init_def)
  from a m bits masks facade run show ?thesis
    by (intro conjI)
qed

theorem C4_mode_toggle_bytes_witness:
  "set_mode_data True [0x3A, 0x55, 0x66, 0x77, 0x88, 0x99] = Inr [0x1A, 0x10, 0x80, 0x10, 0x80]
   \<and> set_mode_data False [0x1A, 0x55, 0x66, 0x77, 0x88, 0x99] = Inr [0x3A, 0x55, 0x66, 0x77, 0x88]"
  using C4_mode_toggle_bytes [where ?d0.0 = "0x3A" and ?d1.0 = "0x55" and ?d2.0 = "0x66"
      and ?d3.0 = "0x77" and ?d4.0 = "0x88" and ?d5.0 = "0x99", THEN conjunct1]
    C4_mode_toggle_bytes [where ?d0.0 = "0x1A" and ?d1.0 = "0x55" and ?d2.0 = "0x66"
      and ?d3.0 = "0x77" and ?d4.0 = "0x88" and ?d5.0 = "0x99", THEN conjunct2, THEN conjunct1]
  by simp

text \<open>
  C5 (amended). For every requirement byte \<open>d\<close> of the \<open>0x70\<close> block and every position
  entry, the entry stored by \<^verbatim>\<open>get_required_temperatures\<close> has as flag the top 3 bits of
  \<open>d\<close> (\<open>d div 32\<close>), an integer from 0 to 7 that the code passes on as it is, and as
  temperature \<open>((d AND 0x1F) + shift) * step\<close>, where \<open>d AND 0x1F\<close> is \<open>d mod 32\<close>. The loop
  over the 16 positions stores this entry for every used position. The byte \<open>0x45\<close> with
  shift 1 and step 2 gives flag 2 and temperature 12, also on the scripted run where the
  \<open>0x70\<close> block holds \<open>0x45\<close> for position 3.
\<close>

theorem C5_requirement_decoding:
  "required_entry (uint (d::byte)) p
     = \<lparr>temp = ((uint d AND 0x1F) + shift p) * step p, flag = drop_bit 5 (uint d)\<rparr>
   \<and> uint d AND 0x1F = uint d mod 32
   \<and> drop_bit 5 (uint d) = uint d div 32
   \<and> 0 \<le> flag (required_entry (uint d) p) \<and> flag (required_entry (uint d) p) \<le> 7
   \<and> uint d = 32 * flag (required_entry (uint d) p) + (uint d AND 0x1F)
   \<and> (required_loop data ps [1..16] Map.empty = Inr res \<and> pos \<in> {1..16} \<and> ps pos = Some q
        \<and> used q
      \<longrightarrow> res pos = Some (required_entry (uint (data ! nat (pos - 1))) q))
   \<and> required_entry (uint (0x45 :: byte)) \<lparr>used = True, name = ''Hall'', shift = 1, step = 2\<rparr>
       = \<lparr>temp = 12, flag = 2\<rparr>
   \<and> returned (get_required_temperatures script_modbus ascii_table
         (init (ok_response [0, 0, 0x45, 0, 0, 0, 0, 0, 0, 0, 0, 0, 0, 0, 0, 0] # demo_script) 1))
       = Some (Some [3 \<mapsto> \<lparr>temp = 12, flag = 2\<rparr>])"
proof -
  have e: "required_entry (uint d) p
     = \<lparr>temp = ((uint d AND 0x1F) + shift p) * step p, flag = drop_bit 5 (uint d)\<rparr>"
    by (simp add: required_entry_def Let_def)
  have f: "uint d AND 0x1F = uint d mod 32" "drop_bit 5 (uint d) = uint d div 32"
    by (simp_all add: int_and_31 drop_bit_eq_div)
  have r: "0 \<le> flag (required_entry (uint d) p)" "flag (required_entry (uint d) p) \<le> 7"
    using flag_range [of d p] by simp_all
  have s: "uint d = 32 * flag (required_entry (uint d) p) + (uint d AND 0x1F)"
    by (simp add: required_entry_eq int_and_31)
  have l: "required_loop data ps [1..16] Map.empty = Inr res \<and> pos \<in> {1..16} \<and> ps pos = Some q
        \<and> used q
      \<longrightarrow> res pos = Some (required_entry (uint (data ! nat (pos - 1))) q)"
    using required_loop_entry [of data ps "[1..16]" Map.empty res pos q] by simp
  have x: "required_entry (uint (0x45 :: byte)) \<lparr>used = True, name = ''Hall'', shift = 1, step = 2\<rparr>
       = \<lparr>temp = 12, flag = 2\<rparr>"
    by (simp add: required_entry_def Let_def drop_bit_eq_div int_and_31)
  have run: "returned (get_required_temperatures script_modbus ascii_table
         (init (ok_response [0, 0, 0x45, 0, 0, 0, 0, 0, 0, 0, 0, 0, 0, 0, 0, 0] # demo_script) 1))
       = Some (Some [3 \<mapsto> \<lparr>temp = 12, flag = 2\<rparr>])"
    by (simp add: get_required_temperatures_def ensure_params_def returned_def eval_defs
        demo_script_def required_entry_def drop_bit_eq_div int_and_31)
  from e f r s l x run show ?thesis
    by (intro conjI)
qed

theorem C5_requirement_decoding_witness:
  "required_loop [0x45, 0xE5] [1 \<mapsto> \<lparr>used = True, name = ''Hall'', shift = 1, step = 2\<rparr>,
         2 \<mapsto> \<lparr>used = True, name = ''Bath'', shift = 0, step = 1\<rparr>] [1, 2] Map.empty
     = Inr [1 \<mapsto> \<lparr>temp = 12, flag = 2\<rparr>, 2 \<mapsto> \<lparr>temp = 5, flag = 7\<rparr>]
   \<and> required_entry (uint (0xE5 :: byte)) \<lparr>used = True, name = ''Bath'', shift = 0, step = 1\<rparr>
       = \<lparr>temp = 5, flag = 7\<rparr>"
  using C5_requirement_decoding [where d = "0xE5"
      and p = "\<lparr>used = True, name = ''Bath'', shift = 0, step = 1\<rparr>", THEN conjunct1]
  by (simp add: py_index_def required_entry_def Let_def drop_bit_eq_div int_and_31)

text \<open>
  C5 as stated fails: a requirement byte with the top bits \<open>111\<close> gives flag 7, which is
  not one of 0 to 4. On the scripted run where the \<open>0x70\<close> block holds \<open>0xE5\<close> for
  position 3 (used, shift 1, step 2), \<^verbatim>\<open>get_required_temperatures\<close> returns flag 7 and
  temperature 12 for that position.
\<close>

theorem C5_flag_outside_enumeration:
  "returned (get_required_temperatures script_modbus ascii_table
       (init (ok_response [0, 0, 0xE5, 0, 0, 0, 0, 0, 0, 0, 0, 0, 0, 0, 0, 0] # demo_script) 1))
     = Some (Some [3 \<mapsto> \<lparr>temp = 12, flag = 7\<rparr>])
   \<and> flag (required_entry (uint (0xE5 :: byte))
             \<lparr>used = True, name = ''Hall'', shift = 1, step = 2\<rparr>) \<notin> {0, 1, 2, 3, 4}"
  by (simp add: get_required_temperatures_def ensure_params_def returned_def eval_defs
      demo_script_def required_entry_def drop_bit_eq_div int_and_31)

text \<open>
  C6. \<^verbatim>\<open>async_read_holding_registers\<close> and \<^verbatim>\<open>async_write_register\<close> attempt the transport
  operation at most \<^verbatim>\<open>CONF_MODBUS_RETR\<close> = 10 times, sleep \<^verbatim>\<open>CONF_MODBUS_RETR_WAIT\<close> = 1
  after each attempt that answers with an error, and return the answer of the last
  attempt made. Over any transport: if the first \<open>k\<close> attempts (\<open>k < 10\<close>) answer with an
  error and attempt \<open>k + 1\<close> does not, the call returns the answer of attempt \<open>k + 1\<close> after
  \<open>k + 1\<close> transport calls and \<open>k\<close> sleeps; if all 10 attempts answer with an error, the call
  returns the answer of attempt 10 after 10 transport calls and 10 sleeps. On scripted
  runs: a read that fails on attempts 1 to 3 and succeeds on attempt 4 returns the
  registers of attempt 4 after sleeping 3, leaving the rest of the script unread; a read
  that fails 10 times returns the tenth error answer after sleeping 10 and makes no
  eleventh attempt; a write that fails once returns the answer of attempt 2.
\<close>

theorem C6_retry_executor:
  "CONF_MODBUS_RETR = 10 \<and> CONF_MODBUS_RETR_WAIT = 1
   \<and> (k < CONF_MODBUS_RETR \<and> (\<forall>i<k. isError (fst (nth_call call (client s) i)))
        \<and> \<not> isError (fst (nth_call call (client s) k))
      \<longrightarrow> retry_loop call rq CONF_MODBUS_RETR None s =
            (Some (fst (nth_call call (client s) k)),
             s\<lparr>client := snd (nth_call call (client s) k),
               trace := trace s @ replicate (Suc k) rq,
               slept := slept s + int k * CONF_MODBUS_RETR_WAIT\<rparr>))
   \<and> ((\<forall>i<CONF_MODBUS_RETR. isError (fst (nth_call call (client s) i)))
      \<longrightarrow> retry_loop call rq CONF_MODBUS_RETR None s =
            (Some (fst (nth_call call (client s) 9)),
             s\<lparr>client := snd (nth_call call (client s) 9),
               trace := trace s @ replicate 10 rq,
               slept := slept s + 10 * CONF_MODBUS_RETR_WAIT\<rparr>))
   \<and> (kw = (if unit \<noteq> 0 then Some unit else None) \<and> s1 = snd (check_connection M s)
        \<and> rcall = (\<lambda>c. client_read_holding_registers M c addr count kw)
        \<and> k < CONF_MODBUS_RETR \<and> (\<forall>i<k. isError (fst (nth_call rcall (client s1) i)))
        \<and> \<not> isError (fst (nth_call rcall (client s1) k))
      \<longrightarrow> async_read_holding_registers M unit addr count s =
            Inr (fst (nth_call rcall (client s1) k),
                 s1\<lparr>client := snd (nth_call rcall (client s1) k),
                    trace := trace s1 @ replicate (Suc k) (ReadHolding addr count kw),
                    slept := slept s1 + int k * CONF_MODBUS_RETR_WAIT\<rparr>))
   \<and> (kw = (if unit \<noteq> 0 then Some unit else None) \<and> s1 = snd (check_connection M s)
        \<and> rcall = (\<lambda>c. client_read_holding_registers M c addr count kw)
        \<and> (\<forall>i<CONF_MODBUS_RETR. isError (fst (nth_call rcall (client s1) i)))
      \<longrightarrow> async_read_holding_registers M unit addr count s =
            Inr (fst (nth_call rcall (client s1) 9),
                 s1\<lparr>client := snd (nth_call rcall (client s1) 9),
                    trace := trace s1 @ replicate 10 (ReadHolding addr count kw),
                    slept := slept s1 + 10 * CONF_MODBUS_RETR_WAIT\<rparr>))
   \<and> (kw = (if unit \<noteq> 0 then Some unit else None) \<and> s1 = snd (check_connection M s)
        \<and> wcall = (\<lambda>c. client_write_registers M c addr (map uint payload) kw)
        \<and> k < CONF_MODBUS_RETR \<and> (\<forall>i<k. isError (fst (nth_call wcall (client s1) i)))
        \<and> \<not> isError (fst (nth_call wcall (client s1) k))
      \<longrightarrow> async_write_register M unit addr payload s =
            Inr (fst (nth_call wcall (client s1) k),
                 s1\<lparr>client := snd (nth_call wcall (client s1) k),
                    trace := trace s1 @ replicate (Suc k) (WriteRegisters addr (map uint payload) kw),
                    slept := slept s1 + int k * CONF_MODBUS_RETR_WAIT\<rparr>))
   \<and> (kw = (if unit \<noteq> 0 then Some unit else None) \<and> s1 = snd (check_connection M s)
        \<and> wcall = (\<lambda>c. client_write_registers M c addr (map uint payload) kw)
        \<and> (\<forall>i<CONF_MODBUS_RETR. isError (fst (nth_call wcall (client s1) i)))
      \<longrightarrow> async_write_register M unit addr payload s =
            Inr (fst (nth_call wcall (client s1) 9),
                 s1\<lparr>client := snd (nth_call wcall (client s1) 9),
                    trace := trace s1 @ replicate 10 (WriteRegisters addr (map uint payload) kw),
                    slept := slept s1 + 10 * CONF_MODBUS_RETR_WAIT\<rparr>))
   \<and> async_read_holding_registers script_modbus 1 0x60 2
        (init [error_response, error_response, error_response, ok_response [21, 22],
               ok_response [99]] 1)
      = Inr (ok_response [21, 22],
             \<lparr>client = [ok_response [99]], address = 1, params = None, slept = 3,
              trace = [ReadHolding 0x60 2 (Some 1), ReadHolding 0x60 2 (Some 1),
                       ReadHolding 0x60 2 (Some 1), ReadHolding 0x60 2 (Some 1)]\<rparr>)
   \<and> async_read_holding_registers script_modbus 1 0x60 2
        (init [\<lparr>isError = True, registers = Some [1]\<rparr>, \<lparr>isError = True, registers = Some [2]\<rparr>,
               \<lparr>isError = True, registers = Some [3]\<rparr>, \<lparr>isError = True, registers = Some [4]\<rparr>,
               \<lparr>isError = True, registers = Some [5]\<rparr>, \<lparr>isError = True, registers = Some [6]\<rparr>,
               \<lparr>isError = True, registers = Some [7]\<rparr>, \<lparr>isError = True, registers = Some [8]\<rparr>,
               \<lparr>isError = True, registers = Some [9]\<rparr>, \<lparr>isError = True, registers = Some [10]\<rparr>,
               ok_response [21, 22]] 1)
      = Inr (\<lparr>isError = True, registers = Some [10]\<rparr>,
             \<lparr>client = [ok_response [21, 22]], address = 1, params = None, slept = 10,
              trace = [ReadHolding 0x60 2 (Some 1), ReadHolding 0x60 2 (Some 1),
                       ReadHolding 0x60 2 (Some 1), ReadHolding 0x60 2 (Some 1),
                       ReadHolding 0x60 2 (Some 1), ReadHolding 0x60 2 (Some 1),
                       ReadHolding 0x60 2 (Some 1), ReadHolding 0x60 2 (Some 1),
                       ReadHolding 0x60 2 (Some 1), ReadHolding 0x60 2 (Some 1)]\<rparr>)
   \<and> async_write_register script_modbus 1 0x1123 [0x89, 0x35]
        (init [error_response, ok_response []] 1)
      = Inr (ok_response [],
             \<lparr>client = [], address = 1, params = None, slept = 1,
              trace = [WriteRegisters 0x1123 [0x89, 0x35] (Some 1),
                       WriteRegisters 0x1123 [0x89, 0x35] (Some 1)]\<rparr>)"
proof -
  have cfg: "CONF_MODBUS_RETR = 10" "CONF_MODBUS_RETR_WAIT = 1"
    by (simp_all add: CONF_MODBUS_RETR_def CONF_MODBUS_RETR_WAIT_def)
  have loop_ok: "k < CONF_MODBUS_RETR \<and> (\<forall>i<k. isError (fst (nth_call call (client s) i)))
        \<and> \<not> isError (fst (nth_call call (client s) k))
      \<longrightarrow> retry_loop call rq CONF_MODBUS_RETR None s =
            (Some (fst (nth_call call (client s) k)),
             s\<lparr>client := snd (nth_call call (client s) k),
               trace := trace s @ replicate (Suc k) rq,
               slept := slept s + int k * CONF_MODBUS_RETR_WAIT\<rparr>)"
    using retry_loop_success [of k CONF_MODBUS_RETR call s rq None] by blast
  have loop_all: "(\<forall>i<CONF_MODBUS_RETR. isError (fst (nth_call call (client s) i)))
      \<longrightarrow> retry_loop call rq CONF_MODBUS_RETR None s =
            (Some (fst (nth_call call (client s) 9)),
             s\<lparr>client := snd (nth_call call (client s) 9),
               trace := trace s @ replicate 10 rq,
               slept := slept s + 10 * CONF_MODBUS_RETR_WAIT\<rparr>)"
    using retry_loop_exhausted [of 9 call s rq None]
    by (simp add: CONF_MODBUS_RETR_def)
  have read_ok: "kw = (if unit \<noteq> 0 then Some unit else None) \<and> s1 = snd (check_connection M s)
        \<and> rcall = (\<lambda>c. client_read_holding_registers M c addr count kw)
        \<and> k < CONF_MODBUS_RETR \<and> (\<forall>i<k. isError (fst (nth_call rcall (client s1) i)))
        \<and> \<not> isError (fst (nth_call rcall (client s1) k))
      \<longrightarrow> async_read_holding_registers M unit addr count s =
            Inr (fst (nth_call rcall (client s1) k),
                 s1\<lparr>client := snd (nth_call rcall (client s1) k),
                    trace := trace s1 @ replicate (Suc k) (ReadHolding addr count kw),
                    slept := slept s1 + int k * CONF_MODBUS_RETR_WAIT\<rparr>)"
    using async_read_success [of kw unit s1 M s rcall addr count k] by blast
  have read_all: "kw = (if unit \<noteq> 0 then Some unit else None) \<and> s1 = snd (check_connection M s)
        \<and> rcall = (\<lambda>c. client_read_holding_registers M c addr count kw)
        \<and> (\<forall>i<CONF_MODBUS_RETR. isError (fst (nth_call rcall (client s1) i)))
      \<longrightarrow> async_read_holding_registers M unit addr count s =
            Inr (fst (nth_call rcall (client s1) 9),
                 s1\<lparr>client := snd (nth_call rcall (client s1) 9),
                    trace := trace s1 @ replicate 10 (ReadHolding addr count kw),
                    slept := slept s1 + 10 * CONF_MODBUS_RETR_WAIT\<rparr>)"
    using async_read_exhausted [of kw unit s1 M s rcall addr count] by blast
  have write_ok: "kw = (if unit \<noteq> 0 then Some unit else None) \<and> s1 = snd (check_connection M s)
        \<and> wcall = (\<lambda>c. client_write_registers M c addr (map uint payload) kw)
        \<and> k < CONF_MODBUS_RETR \<and> (\<forall>i<k. isError (fst (nth_call wcall (client s1) i)))
        \<and> \<not> isError (fst (nth_call wcall (client s1) k))
      \<longrightarrow> async_write_register M unit addr payload s =
            Inr (fst (nth_call wcall (client s1) k),
                 s1\<lparr>client := snd (nth_call wcall (client s1) k),
                    trace := trace s1 @ replicate (Suc k) (WriteRegisters addr (map uint payload) kw),
                    slept := slept s1 + int k * CONF_MODBUS_RETR_WAIT\<rparr>)"
    using async_write_success [of kw unit s1 M s wcall addr payload k] by blast
  have write_all: "kw = (if unit \<noteq> 0 then Some unit else None) \<and> s1 = snd (check_connection M s)
        \<and> wcall = (\<lambda>c. client_write_registers M c addr (map uint payload) kw)
        \<and> (\<forall>i<CONF_MODBUS_RETR. isError (fst (nth_call wcall (client s1) i)))
      \<longrightarrow> async_write_register M unit addr payload s =
            Inr (fst (nth_call wcall (client s1) 9),
                 s1\<lparr>client := snd (nth_call wcall (client s1) 9),
                    trace := trace s1 @ replicate 10 (WriteRegisters addr (map uint payload) kw),
                    slept := slept s1 + 10 * CONF_MODBUS_RETR_WAIT\<rparr>)"
    using async_write_exhausted [of kw unit s1 M s wcall addr payload] by blast
  have run4: "async_read_holding_registers script_modbus 1 0x60 2
        (init [error_response, error_response, error_response, ok_response [21, 22],
               ok_response [99]] 1)
      = Inr (ok_response [21, 22],
             \<lparr>client = [ok_response [99]], address = 1, params = None, slept = 3,
              trace = [ReadHolding 0x60 2 (Some 1), ReadHolding 0x60 2 (Some 1),
                       ReadHolding 0x60 2 (Some 1), ReadHolding 0x60 2 (Some 1)]\<rparr>)"
    by (simp add: facade_eval_defs init_def)
  have run10: "async_read_holding_registers script_modbus 1 0x60 2
        (init [\<lparr>isError = True, registers = Some [1]\<rparr>, \<lparr>isError = True, registers = Some [2]\<rparr>,
               \<lparr>isError = True, registers = Some [3]\<rparr>, \<lparr>isError = True, registers = Some [4]\<rparr>,
               \<lparr>isError = True, registers = Some [5]\<rparr>, \<lparr>isError = True, registers = Some [6]\<rparr>,
               \<lparr>isError = True, registers = Some [7]\<rparr>, \<lparr>isError = True, registers = Some [8]\<rparr>,
               \<lparr>isError = True, registers = Some [9]\<rparr>, \<lparr>isError = True, registers = Some [10]\<rparr>,
               ok_response [21, 22]] 1)
      = Inr (\<lparr>isError = True, registers = Some [10]\<rparr>,
             \<lparr>client = [ok_response [21, 22]], address = 1, params = None, slept = 10,
              trace = [ReadHolding 0x60 2 (Some 1), ReadHolding 0x60 2 (Some 1),
                       ReadHolding 0x60 2 (Some 1), ReadHolding 0x60 2 (Some 1),
                       ReadHolding 0x60 2 (Some 1), ReadHolding 0x60 2 (Some 1),
                       ReadHolding 0x60 2 (Some 1), ReadHolding 0x60 2 (Some 1),
                       ReadHolding 0x60 2 (Some 1), ReadHolding 0x60 2 (Some 1)]\<rparr>)"
    by (simp add: facade_eval_defs init_def)
  have runw: "async_write_register script_modbus 1 0x1123 [0x89, 0x35]
        (init [error_response, ok_response []] 1)
      = Inr (ok_response [],
             \<lparr>client = [], address = 1, params = None, slept = 1,
              trace = [WriteRegisters 0x1123 [0x89, 0x35] (Some 1),
                       WriteRegisters 0x1123 [0x89, 0x35] (Some 1)]\<rparr>)"
    by (simp add: facade_eval_defs init_def)
  from cfg loop_ok loop_all read_ok read_all write_ok write_all run4 run10 runw
  show ?thesis
    by (intro conjI)
qed

theorem C6_retry_executor_witness:
  "(3::nat) < CONF_MODBUS_RETR
   \<and> isError (fst (nth_call script_next
        [error_response, error_response, error_response, ok_response [7], ok_response [8]] 0))
   \<and> isError (fst (nth_call script_next
        [error_response, error_response, error_response, ok_response [7], ok_response [8]] 1))
   \<and> isError (fst (nth_call script_next
        [error_response, error_response, error_response, ok_response [7], ok_response [8]] 2))
   \<and> \<not> isError (fst (nth_call script_next
        [error_response, error_response, error_response, ok_response [7], ok_response [8]] 3))
   \<and> retry_loop script_next Connect CONF_MODBUS_RETR None
        (init [error_response, error_response, error_response, ok_response [7], ok_response [8]] 1)
      = (Some (ok_response [7]),
         \<lparr>client = [ok_response [8]], address = 1, params = None, slept = 3,
          trace = [Connect, Connect, Connect, Connect]\<rparr>)"
  using C6_retry_executor [where k = 3 and call = script_next and rq = Connect
      and s = "init [error_response, error_response, error_response, ok_response [7],
                     ok_response [8]] 1", THEN conjunct2, THEN conjunct2, THEN conjunct1]
  by (simp add: eval_nat_numeral All_less_Suc script_next_def error_response_def
      ok_response_def init_def CONF_MODBUS_RETR_def CONF_MODBUS_RETR_WAIT_def Let_def)

text \<open>
  C7. A transport error on the name read of a used position. On a script where
  position 1 answers its configuration read with \<open>[0x01, 0x00, 0x41, 0x00]\<close> (used) and
  all ten attempts of its 8-register name read fail with an error answer that has no
  registers, \<^verbatim>\<open>__read_params\<close> raises \<^verbatim>\<open>AttributeError\<close> after 11 transport calls: line 158
  tests \<^verbatim>\<open>param_response\<close>, which is known not to be an error there, so
  \<^verbatim>\<open>bytes(name_response.registers)\<close> is evaluated on the error answer. The pass is
  aborted, no position is stored, the cache stays unpopulated, and \<^verbatim>\<open>get_parameters\<close>
  raises the same exception. A failed configuration read does what the claim says: on
  the script where position 2 fails all ten attempts, the pass goes on and stores the
  sentinel entry at position 2 and the entry read at position 3.
\<close>

theorem C7_name_read_error_aborts:
  "raised (read_params script_modbus ascii_table (init name_error_script 1))
     = Some AttributeError
   \<and> params (final_state (read_params script_modbus ascii_table (init name_error_script 1)))
       = None
   \<and> length (trace (final_state
         (read_params script_modbus ascii_table (init name_error_script 1)))) = 11
   \<and> slept (final_state (read_params script_modbus ascii_table (init name_error_script 1)))
       = 10
   \<and> raised (get_parameters script_modbus ascii_table (init name_error_script 1))
       = Some AttributeError
   \<and> returned (get_parameters script_modbus ascii_table (init name_error_script 1)) = None
   \<and> map_option (\<lambda>ps. (ps 2, ps 3))
        (params (final_state (read_params script_modbus ascii_table (init demo_script 1))))
       = Some (Some \<lparr>used = False, name = ''<timeout>'', shift = 5, step = 1\<rparr>,
               Some \<lparr>used = True, name = ''Hall'', shift = 1, step = 2\<rparr>)"
proof -
  have r: "read_params script_modbus ascii_table (init name_error_script 1)
      = Inl (AttributeError,
          \<lparr>client = [], address = 1, params = None, slept = 10,
           trace = [ReadHolding 0x1100 4 (Some 1), ReadHolding 0x1030 8 (Some 1),
                    ReadHolding 0x1030 8 (Some 1), ReadHolding 0x1030 8 (Some 1),
                    ReadHolding 0x1030 8 (Some 1), ReadHolding 0x1030 8 (Some 1),
                    ReadHolding 0x1030 8 (Some 1), ReadHolding 0x1030 8 (Some 1),
                    ReadHolding 0x1030 8 (Some 1), ReadHolding 0x1030 8 (Some 1),
                    ReadHolding 0x1030 8 (Some 1)]\<rparr>)"
    by (simp add: eval_defs name_error_script_def)
  have g: "get_parameters script_modbus ascii_table (init name_error_script 1)
      = Inl (AttributeError,
          \<lparr>client = [], address = 1, params = None, slept = 10,
           trace = [ReadHolding 0x1100 4 (Some 1), ReadHolding 0x1030 8 (Some 1),
                    ReadHolding 0x1030 8 (Some 1), ReadHolding 0x1030 8 (Some 1),
                    ReadHolding 0x1030 8 (Some 1), ReadHolding 0x1030 8 (Some 1),
                    ReadHolding 0x1030 8 (Some 1), ReadHolding 0x1030 8 (Some 1),
                    ReadHolding 0x1030 8 (Some 1), ReadHolding 0x1030 8 (Some 1),
                    ReadHolding 0x1030 8 (Some 1)]\<rparr>)"
    using r by (simp add: get_parameters_def ensure_params_def init_def)
  have d: "map_option (\<lambda>ps. (ps 2, ps 3))
        (params (final_state (read_params script_modbus ascii_table (init demo_script 1))))
       = Some (Some \<lparr>used = False, name = ''<timeout>'', shift = 5, step = 1\<rparr>,
               Some \<lparr>used = True, name = ''Hall'', shift = 1, step = 2\<rparr>)"
    by (simp add: eval_defs demo_script_def final_state_def)
  from r g d show ?thesis
    by (simp add: raised_def returned_def final_state_def)
qed

text \<open>
  C8. \<^verbatim>\<open>get_parameters\<close> twice. Whenever a call of \<^verbatim>\<open>get_parameters\<close> returns, a second
  call made in the state the first one left returns the same value and leaves the state
  as it is: no transport call is logged, nothing is slept, the cache is the same. The
  value returned is computed from the cache left behind: for each position with
  \<open>used\<close> set, its name, \<open>(1 + shift) * step\<close> and \<open>(30 + shift) * step\<close>, and nothing for
  a position without \<open>used\<close>. Once the cache is populated, \<^verbatim>\<open>__read_params\<close> is not
  run again and no method changes the cache: \<^verbatim>\<open>set_mode\<close>,
  \<^verbatim>\<open>set_temporary_temperature\<close>, \<^verbatim>\<open>get_current_temperatures\<close> and
  \<^verbatim>\<open>get_required_temperatures\<close> leave it as it was, whether they return or raise, so
  \<^verbatim>\<open>get_parameters\<close> returns the same value after them. On the scripted run of a fresh
  object, the first call makes 26 transport calls and publishes position 3 only; the
  second call returns the same value with the state unchanged.
\<close>

theorem C8_get_parameters_idempotent:
  "(get_parameters M cp s = Inr (r, s1) \<longrightarrow>
      get_parameters M cp s1 = Inr (r, s1)
      \<and> (\<exists>ps. params s1 = Some ps
            \<and> r = Some (\<lambda>pos. case ps pos of
                              None \<Rightarrow> None
                            | Some p \<Rightarrow>
                                if used p then
                                  Some \<lparr>info_name = name p,
                                        info_min = (1 + shift p) * step p,
                                        info_max = (30 + shift p) * step p\<rparr>
                                else None)))
   \<and> (params s = Some ps \<longrightarrow>
        ensure_params M cp s = Inr ((), s)
        \<and> final_state (get_parameters M cp s) = s
        \<and> params (final_state (set_mode M pos auto s)) = Some ps
        \<and> params (final_state
             (set_temporary_temperature M cp add_minutes now pos temperature duration s))
            = Some ps
        \<and> params (final_state (get_current_temperatures M cp s)) = Some ps
        \<and> params (final_state (get_required_temperatures M cp s)) = Some ps
        \<and> returned (get_parameters M cp (final_state (set_mode M pos auto s)))
            = returned (get_parameters M cp s)
        \<and> returned (get_parameters M cp (final_state
             (set_temporary_temperature M cp add_minutes now pos temperature duration s)))
            = returned (get_parameters M cp s)
        \<and> returned (get_parameters M cp (final_state (get_current_temperatures M cp s)))
            = returned (get_parameters M cp s)
        \<and> returned (get_parameters M cp (final_state (get_required_temperatures M cp s)))
            = returned (get_parameters M cp s))
   \<and> (\<exists>z t. get_parameters script_modbus ascii_table (init demo_script 1) = Inr (Some z, t)
        \<and> get_parameters script_modbus ascii_table t = Inr (Some z, t)
        \<and> z 1 = None \<and> z 2 = None
        \<and> z 3 = Some \<lparr>info_name = ''Hall'', info_min = 4, info_max = 62\<rparr>
        \<and> z 4 = None
        \<and> length (trace t) = 26 \<and> client t = [])"
proof -
  have twice: "get_parameters M cp s = Inr (r, s1) \<longrightarrow>
      get_parameters M cp s1 = Inr (r, s1)
      \<and> (\<exists>ps. params s1 = Some ps
            \<and> r = Some (\<lambda>pos. case ps pos of
                              None \<Rightarrow> None
                            | Some p \<Rightarrow>
                                if used p then
                                  Some \<lparr>info_name = name p,
                                        info_min = (1 + shift p) * step p,
                                        info_max = (30 + shift p) * step p\<rparr>
                                else None))"
    using get_parameters_twice [of M cp s r s1] get_parameters_Inr [of M cp s r s1] by blast
  have kept: "params s = Some ps \<longrightarrow>
        ensure_params M cp s = Inr ((), s)
        \<and> final_state (get_parameters M cp s) = s
        \<and> params (final_state (set_mode M pos auto s)) = Some ps
        \<and> params (final_state
             (set_temporary_temperature M cp add_minutes now pos temperature duration s))
            = Some ps
        \<and> params (final_state (get_current_temperatures M cp s)) = Some ps
        \<and> params (final_state (get_required_temperatures M cp s)) = Some ps
        \<and> returned (get_parameters M cp (final_state (set_mode M pos auto s)))
            = returned (get_parameters M cp s)
        \<and> returned (get_parameters M cp (final_state
             (set_temporary_temperature M cp add_minutes now pos temperature duration s)))
            = returned (get_parameters M cp s)
        \<and> returned (get_parameters M cp (final_state (get_current_temperatures M cp s)))
            = returned (get_parameters M cp s)
        \<and> returned (get_parameters M cp (final_state (get_required_temperatures M cp s)))
            = returned (get_parameters M cp s)"
  proof
    assume p: "params s = Some ps"
    have e: "ensure_params M cp s = Inr ((), s)"
      using p by (rule ensure_params_kept)
    have f: "final_state (get_parameters M cp s) = s"
      using p by (simp add: get_parameters_cached final_state_def)
    have k1: "params (final_state (set_mode M pos auto s)) = Some ps"
      using p by (simp add: set_mode_params)
    have k2: "params (final_state
             (set_temporary_temperature M cp add_minutes now pos temperature duration s))
            = Some ps"
      using p by (rule kept_set_temporary_temperature)
    have k3: "params (final_state (get_current_temperatures M cp s)) = Some ps"
      using p by (rule kept_get_current_temperatures)
    have k4: "params (final_state (get_required_temperatures M cp s)) = Some ps"
      using p by (rule kept_get_required_temperatures)
    have same: "\<And>t. params t = Some ps \<Longrightarrow>
        returned (get_parameters M cp t) = returned (get_parameters M cp s)"
      using p by (simp add: get_parameters_cached returned_def)
    from e f k1 k2 k3 k4 same [OF k1] same [OF k2] same [OF k3] same [OF k4]
    show "ensure_params M cp s = Inr ((), s)
        \<and> final_state (get_parameters M cp s) = s
        \<and> params (final_state (set_mode M pos auto s)) = Some ps
        \<and> params (final_state
             (set_temporary_temperature M cp add_minutes now pos temperature duration s))
            = Some ps
        \<and> params (final_state (get_current_temperatures M cp s)) = Some ps
        \<and> params (final_state (get_required_temperatures M cp s)) = Some ps
        \<and> returned (get_parameters M cp (final_state (set_mode M pos auto s)))
            = returned (get_parameters M cp s)
        \<and> returned (get_parameters M cp (final_state
             (set_temporary_temperature M cp add_minutes now pos temperature duration s)))
            = returned (get_parameters M cp s)
        \<and> returned (get_parameters M cp (final_state (get_current_temperatures M cp s)))
            = returned (get_parameters M cp s)
        \<and> returned (get_parameters M cp (final_state (get_required_temperatures M cp s)))
            = returned (get_parameters M cp s)"
      by (intro conjI)
  qed
  have run: "\<exists>z t. get_parameters script_modbus ascii_table (init demo_script 1) = Inr (Some z, t)
        \<and> get_parameters script_modbus ascii_table t = Inr (Some z, t)
        \<and> z 1 = None \<and> z 2 = None
        \<and> z 3 = Some \<lparr>info_name = ''Hall'', info_min = 4, info_max = 62\<rparr>
        \<and> z 4 = None
        \<and> length (trace t) = 26 \<and> client t = []"
  proof -
    have "\<exists>z t. get_parameters script_modbus ascii_table (init demo_script 1) = Inr (Some z, t)
        \<and> z 1 = None \<and> z 2 = None
        \<and> z 3 = Some \<lparr>info_name = ''Hall'', info_min = 4, info_max = 62\<rparr>
        \<and> z 4 = None
        \<and> length (trace t) = 26 \<and> client t = []"
      by (simp add: get_parameters_def ensure_params_def eval_defs demo_script_def)
    then obtain z t where
      a: "get_parameters script_modbus ascii_table (init demo_script 1) = Inr (Some z, t)"
      and b: "z 1 = None" "z 2 = None"
        "z 3 = Some \<lparr>info_name = ''Hall'', info_min = 4, info_max = 62\<rparr>" "z 4 = None"
        "length (trace t) = 26" "client t = []"
      by blast
    from get_parameters_twice [OF a] a b show ?thesis by blast
  qed
  from twice kept run show ?thesis
    by (intro conjI)
qed

theorem C8_get_parameters_idempotent_witness:
  "params demo_state = Some [3 \<mapsto> \<lparr>used = True, name = ''Hall'', shift = 1, step = 2\<rparr>]
   \<and> ensure_params script_modbus ascii_table demo_state = Inr ((), demo_state)
   \<and> final_state (get_parameters script_modbus ascii_table demo_state) = demo_state
   \<and> params (final_state (set_mode script_modbus 3 True demo_state))
       = Some [3 \<mapsto> \<lparr>used = True, name = ''Hall'', shift = 1, step = 2\<rparr>]
   \<and> returned (get_parameters script_modbus ascii_table
        (final_state (set_mode script_modbus 3 True demo_state)))
       = returned (get_parameters script_modbus ascii_table demo_state)"
proof -
  have p: "params demo_state
      = Some [3 \<mapsto> \<lparr>used = True, name = ''Hall'', shift = 1, step = 2\<rparr>]"
    by (simp add: demo_state_def)
  from C8_get_parameters_idempotent [where s = demo_state and M = script_modbus
      and cp = ascii_table and pos = 3 and auto = True
      and ps = "[3 \<mapsto> \<lparr>used = True, name = ''Hall'', shift = 1, step = 2\<rparr>]",
      THEN conjunct2, THEN conjunct1] p
  show ?thesis by simp
qed

text \<open>
  C10. Whenever \<^verbatim>\<open>__read_params\<close> returns, the cache it leaves holds an entry for exactly
  the positions 1 to 16, whatever the 16 configuration reads and the name reads
  answered. A fresh object has no cache, and every method keeps the cache either
  unpopulated or complete, whether it returns or raises. In such a state the lookup
  \<^verbatim>\<open>self._params[pos]\<close> never fails: \<^verbatim>\<open>set_temporary_temperature\<close> for a position from 1 to
  16, \<^verbatim>\<open>get_current_temperatures\<close> and \<^verbatim>\<open>get_required_temperatures\<close> never raise
  \<^verbatim>\<open>KeyError\<close>, nor \<^verbatim>\<open>TypeError\<close> for a cache that is still \<^verbatim>\<open>None\<close>. \<^verbatim>\<open>get_parameters\<close> never
  returns \<^verbatim>\<open>None\<close>. On the scripted run where position 2 fails all ten attempts, the
  pass returns with a cache whose positions are 1 to 16.
\<close>

theorem C10_cache_complete:
  "(read_params M cp s = Inr (u, s1) \<longrightarrow> (\<exists>ps. params s1 = Some ps \<and> dom ps = {1..16}))
   \<and> cache_complete (init c a)
   \<and> (cache_complete s \<longrightarrow>
        cache_complete (final_state (get_parameters M cp s))
        \<and> cache_complete (final_state (set_mode M pos auto s))
        \<and> cache_complete (final_state
             (set_temporary_temperature M cp add_minutes now pos temperature duration s))
        \<and> cache_complete (final_state (get_current_temperatures M cp s))
        \<and> cache_complete (final_state (get_required_temperatures M cp s)))
   \<and> (cache_complete s \<and> pos \<in> {1..16} \<longrightarrow>
        raised (set_temporary_temperature M cp add_minutes now pos temperature duration s)
          \<noteq> Some KeyError
        \<and> raised (set_temporary_temperature M cp add_minutes now pos temperature duration s)
          \<noteq> Some TypeError)
   \<and> (cache_complete s \<longrightarrow>
        raised (get_current_temperatures M cp s) \<noteq> Some KeyError
        \<and> raised (get_current_temperatures M cp s) \<noteq> Some TypeError
        \<and> raised (get_required_temperatures M cp s) \<noteq> Some KeyError
        \<and> raised (get_required_temperatures M cp s) \<noteq> Some TypeError)
   \<and> get_parameters M cp s \<noteq> Inr (None, s1)
   \<and> (\<exists>t ps. read_params script_modbus ascii_table (init demo_script 1) = Inr ((), t)
        \<and> params t = Some ps \<and> dom ps = {1..16}
        \<and> ps 2 = Some \<lparr>used = False, name = ''<timeout>'', shift = 5, step = 1\<rparr>)"
proof -
  have pop: "read_params M cp s = Inr (u, s1) \<longrightarrow>
      (\<exists>ps. params s1 = Some ps \<and> dom ps = {1..16})"
    using read_params_Inr [of M cp s u s1] by blast
  have fresh: "cache_complete (init c a)"
    by (simp add: cache_complete_def init_def)
  have inv: "cache_complete s \<longrightarrow>
        cache_complete (final_state (get_parameters M cp s))
        \<and> cache_complete (final_state (set_mode M pos auto s))
        \<and> cache_complete (final_state
             (set_temporary_temperature M cp add_minutes now pos temperature duration s))
        \<and> cache_complete (final_state (get_current_temperatures M cp s))
        \<and> cache_complete (final_state (get_required_temperatures M cp s))"
    using get_parameters_cache [of s M cp] set_mode_cache [of s M pos auto]
      set_temporary_temperature_cache [of s M cp add_minutes now pos temperature duration]
      get_current_temperatures_cache [of s M cp] get_required_temperatures_cache [of s M cp]
    by blast
  have stt: "cache_complete s \<and> pos \<in> {1..16} \<longrightarrow>
        raised (set_temporary_temperature M cp add_minutes now pos temperature duration s)
          \<noteq> Some KeyError
        \<and> raised (set_temporary_temperature M cp add_minutes now pos temperature duration s)
          \<noteq> Some TypeError"
    using set_temporary_temperature_lookup [of s pos M cp add_minutes now temperature duration]
    by auto
  have loops: "cache_complete s \<longrightarrow>
        raised (get_current_temperatures M cp s) \<noteq> Some KeyError
        \<and> raised (get_current_temperatures M cp s) \<noteq> Some TypeError
        \<and> raised (get_required_temperatures M cp s) \<noteq> Some KeyError
        \<and> raised (get_required_temperatures M cp s) \<noteq> Some TypeError"
    using get_current_temperatures_lookup [of s M cp]
      get_required_temperatures_lookup [of s M cp]
    by auto
  have none: "get_parameters M cp s \<noteq> Inr (None, s1)"
    by (rule get_parameters_not_None)
  have run: "\<exists>t ps. read_params script_modbus ascii_table (init demo_script 1) = Inr ((), t)
        \<and> params t = Some ps \<and> dom ps = {1..16}
        \<and> ps 2 = Some \<lparr>used = False, name = ''<timeout>'', shift = 5, step = 1\<rparr>"
  proof -
    have "\<exists>t ps. read_params script_modbus ascii_table (init demo_script 1) = Inr ((), t)
        \<and> params t = Some ps
        \<and> ps 2 = Some \<lparr>used = False, name = ''<timeout>'', shift = 5, step = 1\<rparr>"
      by (simp add: eval_defs demo_script_def)
    then obtain t ps where
      a: "read_params script_modbus ascii_table (init demo_script 1) = Inr ((), t)"
      and b: "params t = Some ps"
        "ps 2 = Some \<lparr>used = False, name = ''<timeout>'', shift = 5, step = 1\<rparr>"
      by blast
    from read_params_Inr [OF a] b(1) have "dom ps = {1..16}" by simp
    with a b show ?thesis by blast
  qed
  from pop fresh inv stt loops none run show ?thesis
    by (intro conjI)
qed

theorem C10_cache_complete_witness:
  "cache_complete (init demo_script 1)
   \<and> cache_complete (final_state (get_parameters script_modbus ascii_table (init demo_script 1)))
   \<and> cache_complete (final_state
        (get_current_temperatures script_modbus ascii_table (init demo_script 1)))
   \<and> raised (get_current_temperatures script_modbus ascii_table (init demo_script 1))
       \<noteq> Some KeyError"
proof -
  have f: "cache_complete (init demo_script 1)"
    by (simp add: cache_complete_def init_def)
  from C10_cache_complete [where s = "init demo_script 1" and M = script_modbus
      and cp = ascii_table, THEN conjunct2, THEN conjunct2, THEN conjunct1]
    C10_cache_complete [where s = "init demo_script 1" and M = script_modbus
      and cp = ascii_table, THEN conjunct2, THEN conjunct2, THEN conjunct2, THEN conjunct2,
      THEN conjunct1] f
  show ?thesis by simp
qed

end
